theory Spec2Isabelle
  imports Complex_Main
begin

section \<open>Values and datasets\<close>

text \<open>
  A cell of a decoded column is a JavaScript primitive. Numbers are exact reals here
  (IEEE rounding is not part of the model); \<open>JNaN\<close> is the one number that is not a
  real. Nested objects do not occur in the columns the alignment engine reads.
\<close>

datatype jsval = JUndefined | JNull | JNaN | JNum real | JStr string | JBool bool

text \<open>
  \<open>TypeError\<close> is the exception raised by indexing a column that is absent
  (\<open>undefined[i]\<close>). \<open>StoreRejected\<close> is a rejected write to the results store.
  \<open>IllTyped\<close> is not an exception of the source: it marks the inputs on which the
  source goes on with a coercion that is left out here, a string where a cast
  \<open>as number[]\<close> promises a number and a sample time that is not a number.
\<close>

datatype error = TypeError | StoreRejected | IllTyped

record ColumnarData =
  columns :: "string \<rightharpoonup> jsval list"
  numRows :: nat
  fieldNames :: "string list"

text \<open>
  \<open>SyncedResults\<close> is a plain object used as a dictionary from event ids to confirmed
  times; the map holds its own properties. \<open>key in results\<close> is also true of the
  property names that a plain object inherits from \<open>Object.prototype\<close> in a browser,
  and reading such a name gives a function or an object, never a number.
\<close>

type_synonym SyncedResults = "string \<rightharpoonup> real"

definition objectPrototypeNames :: "string list" where
  "objectPrototypeNames =
     [''constructor'', ''hasOwnProperty'', ''isPrototypeOf'', ''propertyIsEnumerable'',
      ''toLocaleString'', ''toString'', ''valueOf'', ''__proto__'',
      ''__defineGetter__'', ''__defineSetter__'', ''__lookupGetter__'', ''__lookupSetter__'']"

text \<open>\<open>key in results\<close>\<close>

definition jsIn :: "string \<Rightarrow> SyncedResults \<Rightarrow> bool" where
  "jsIn key results = (results key \<noteq> None \<or> key \<in> set objectPrototypeNames)"

text \<open>
  The state of the provider that the operations read and write; \<open>None\<close> is a dataset
  that is not loaded.
\<close>

record SyncState =
  eventsData :: "ColumnarData option"
  trackingData :: "ColumnarData option"
  syncedResults :: SyncedResults
  currentEventIndex :: int
  frameOffset :: int
  lastSyncOffset :: int

text \<open>\<open>col[i]\<close> on an array: \<open>undefined\<close> outside the array.\<close>

definition colAt :: "jsval list \<Rightarrow> int \<Rightarrow> jsval" where
  "colAt col i = (if 0 \<le> i \<and> i < int (length col) then col ! nat i else JUndefined)"

text \<open>\<open>col?.[i]\<close>: \<open>undefined\<close> when the column itself is absent.\<close>

fun optAt :: "jsval list option \<Rightarrow> int \<Rightarrow> jsval" where
  "optAt None i = JUndefined"
| "optAt (Some col) i = colAt col i"

text \<open>\<open>col[i]\<close> where the column may be absent: indexing \<open>undefined\<close> throws.\<close>

fun idxAt :: "jsval list option \<Rightarrow> int \<Rightarrow> error + jsval" where
  "idxAt None i = Inl TypeError"
| "idxAt (Some col) i = Inr (colAt col i)"

text \<open>\<open>a ?? b\<close>\<close>

definition nullish :: "jsval \<Rightarrow> jsval \<Rightarrow> jsval" where
  "nullish a b = (if a = JNull \<or> a = JUndefined then b else a)"

text \<open>
  \<open>String(v)\<close>. On a number it is the built-in \<open>Number::toString\<close>, which is not code of
  this program: it is the parameter \<open>numStr\<close> of everything that derives an event id.
\<close>

fun jsString :: "(real \<Rightarrow> string) \<Rightarrow> jsval \<Rightarrow> string" where
  "jsString numStr (JStr s) = s"
| "jsString numStr (JNum r) = numStr r"
| "jsString numStr JNaN = ''NaN''"
| "jsString numStr (JBool b) = (if b then ''true'' else ''false'')"
| "jsString numStr JNull = ''null''"
| "jsString numStr JUndefined = ''undefined''"

text \<open>
  \<open>decimal\<close> and \<open>showNumber\<close> give \<open>Number::toString\<close> on integers of magnitude below
  \<open>10^21\<close>; the worked examples use \<open>showNumber\<close> for \<open>numStr\<close>.
\<close>

definition digitChar :: "nat \<Rightarrow> char" where
  "digitChar d = ''0123456789'' ! d"

fun decimal :: "nat \<Rightarrow> string" where
  "decimal n = (if n < 10 then [digitChar n] else decimal (n div 10) @ [digitChar (n mod 10)])"

definition showNumber :: "real \<Rightarrow> string" where
  "showNumber r = (if r < 0 then ''-'' @ decimal (nat \<lfloor>- r\<rfloor>) else decimal (nat \<lfloor>r\<rfloor>))"

section \<open>The alignment engine (SyncContext)\<close>

text \<open>
  The event-id derivation \<open>String(eventIdCol?.[index] ?? index)\<close>, written out at every
  place of the source that needs an id.
\<close>

definition eventId :: "(real \<Rightarrow> string) \<Rightarrow> ColumnarData \<Rightarrow> int \<Rightarrow> string" where
  "eventId numStr events index =
     jsString numStr (nullish (optAt (columns events ''opta_event_id'') index) (JNum (of_int index)))"

text \<open>\<open>eventId in results\<close>, the test by which the source takes an event for synced.\<close>

definition isSynced :: "(real \<Rightarrow> string) \<Rightarrow> ColumnarData \<Rightarrow> SyncedResults \<Rightarrow> int \<Rightarrow> bool" where
  "isSynced numStr events results index = jsIn (eventId numStr events index) results"

function findFirstUnsynced ::
  "(real \<Rightarrow> string) \<Rightarrow> int \<Rightarrow> ColumnarData \<Rightarrow> SyncedResults \<Rightarrow> int" where
  "findFirstUnsynced numStr index events results =
     (if index < int (numRows events)
      then (if \<not> isSynced numStr events results index then index
            else findFirstUnsynced numStr (index + 1) events results)
      else index)"
  by pat_completeness auto
termination
  by (relation "measure (\<lambda>(numStr, index, events, results). nat (int (numRows events) - index))") auto

declare findFirstUnsynced.simps [simp del]

text \<open>\<open>a === b\<close> on primitives: structural, except that \<open>NaN\<close> equals nothing.\<close>

definition strictEq :: "jsval \<Rightarrow> jsval \<Rightarrow> bool" where
  "strictEq a b = (a = b \<and> a \<noteq> JNaN)"

text \<open>
  \<open>ToNumber\<close> of a cell; \<open>None\<close> is \<open>NaN\<close>. The numeric value of a string is the
  built-in \<open>StringToNumber\<close> and is not modelled.
\<close>

fun toNumber :: "jsval \<Rightarrow> error + real option" where
  "toNumber JUndefined = Inr None"
| "toNumber JNull = Inr (Some 0)"
| "toNumber JNaN = Inr None"
| "toNumber (JNum r) = Inr (Some r)"
| "toNumber (JBool b) = Inr (Some (if b then 1 else 0))"
| "toNumber (JStr s) = Inl IllTyped"

definition bindE :: "error + 'a \<Rightarrow> ('a \<Rightarrow> error + 'b) \<Rightarrow> error + 'b" where
  "bindE m f = (case m of Inl e \<Rightarrow> Inl e | Inr x \<Rightarrow> f x)"

text \<open>
  The loop of \<open>getPeriodTimes\<close> over the rows \<open>0 .. numRows - 1\<close>: the cells of
  \<open>matched_time\<close> in the rows whose \<open>period_id\<close> is the wanted period, in row order.
\<close>

fun collectTimes ::
  "jsval list option \<Rightarrow> jsval list option \<Rightarrow> jsval \<Rightarrow> nat list \<Rightarrow> error + jsval list" where
  "collectTimes periodCol timeCol periodId [] = Inr []"
| "collectTimes periodCol timeCol periodId (i # rows) =
     bindE (idxAt periodCol (int i)) (\<lambda>p.
       if strictEq p periodId
       then bindE (idxAt timeCol (int i)) (\<lambda>t.
              bindE (collectTimes periodCol timeCol periodId rows) (\<lambda>ts. Inr (t # ts)))
       else collectTimes periodCol timeCol periodId rows)"

text \<open>
  \<open>[...times].sort((a, b) => a - b)\<close> on the set of collected cells. The column is read
  as \<open>number[]\<close>; the sort is modelled on numbers only.
\<close>

fun numbersOf :: "jsval list \<Rightarrow> error + real list" where
  "numbersOf [] = Inr []"
| "numbersOf (JNum r # vs) = bindE (numbersOf vs) (\<lambda>rs. Inr (r # rs))"
| "numbersOf (v # vs) = Inl IllTyped"

definition getPeriodTimes :: "ColumnarData \<Rightarrow> jsval \<Rightarrow> error + real list" where
  "getPeriodTimes tracking periodId =
     bindE (collectTimes (columns tracking ''period_id'') (columns tracking ''matched_time'')
              periodId [0 ..< numRows tracking]) (\<lambda>cells.
       bindE (numbersOf cells) (\<lambda>ts. Inr (sort (remdups ts))))"

text \<open>\<open>Array.prototype.findIndex\<close>: the first index whose element satisfies \<open>p\<close>, else \<open>-1\<close>.\<close>

fun findIndexFrom :: "('a \<Rightarrow> bool) \<Rightarrow> 'a list \<Rightarrow> int \<Rightarrow> int" where
  "findIndexFrom p [] i = - 1"
| "findIndexFrom p (x # xs) i = (if p x then i else findIndexFrom p xs (i + 1))"

definition findIndex :: "('a \<Rightarrow> bool) \<Rightarrow> 'a list \<Rightarrow> int" where
  "findIndex p xs = findIndexFrom p xs 0"

text \<open>
  \<open>t >= target\<close> with \<open>target\<close> already a number; false against \<open>NaN\<close>. In
  \<open>updateOffsetForEvent\<close>, \<open>syncedTime = results[eventId]\<close> is the confirmed time when the
  id is a key of the map; for an inherited name it is a function or an object, which
  compares false with every number as \<open>NaN\<close> does, and is \<open>None\<close> here.
\<close>

fun geNumber :: "real \<Rightarrow> real option \<Rightarrow> bool" where
  "geNumber t None = False"
| "geNumber t (Some r) = (t \<ge> r)"

definition updateOffsetForEvent ::
  "(real \<Rightarrow> string) \<Rightarrow> int \<Rightarrow> ColumnarData \<Rightarrow> ColumnarData \<Rightarrow> SyncedResults \<Rightarrow> int
     \<Rightarrow> error + int" where
  "updateOffsetForEvent numStr eventIndex events tracking results fallbackOffset =
     (if eventIndex \<ge> int (numRows events) then Inr fallbackOffset
      else
        bindE (idxAt (columns events ''period_id'') eventIndex) (\<lambda>eventPeriod.
        bindE (idxAt (columns events ''matched_time'') eventIndex) (\<lambda>eventTime.
          if jsIn (eventId numStr events eventIndex) results
          then
            let syncedTime = results (eventId numStr events eventIndex)
            in bindE (getPeriodTimes tracking eventPeriod) (\<lambda>periodTimes.
                 if periodTimes = [] then Inr fallbackOffset
                 else
                   bindE (toNumber eventTime) (\<lambda>target.
                     let baseIdx = findIndex (\<lambda>t. geNumber t target) periodTimes;
                         syncIdx = findIndex (\<lambda>t. geNumber t syncedTime) periodTimes
                     in Inr (syncIdx - (if baseIdx \<ge> 0 then baseIdx else 0))))
          else Inr fallbackOffset)))"

text \<open>
  The operations. Each returns the state after its \<open>set...\<close> calls, or \<open>Inl\<close> when the
  handler threw before finishing. Without loaded datasets every operation returns at
  once. \<open>moveTo\<close> is the three lines that every navigation function ends with:
  set the index, recompute the offset with \<open>lastSyncOffset\<close> as fallback, set the
  offset.
\<close>

definition moveTo :: "(real \<Rightarrow> string) \<Rightarrow> int \<Rightarrow> ColumnarData \<Rightarrow> ColumnarData \<Rightarrow> SyncState
     \<Rightarrow> error + SyncState" where
  "moveTo numStr newIndex events tracking s =
     bindE (updateOffsetForEvent numStr newIndex events tracking (syncedResults s) (lastSyncOffset s))
       (\<lambda>offset. Inr (s\<lparr>currentEventIndex := newIndex, frameOffset := offset\<rparr>))"



definition nextUnsynced :: "(real \<Rightarrow> string) \<Rightarrow> SyncState \<Rightarrow> error + SyncState" where
  "nextUnsynced numStr s =
     (case (eventsData s, trackingData s) of
        (Some events, Some tracking) \<Rightarrow>
          moveTo numStr (findFirstUnsynced numStr (currentEventIndex s + 1) events (syncedResults s))
            events tracking s
      | _ \<Rightarrow> Inr s)"


definition adjustFrameOffset :: "int \<Rightarrow> SyncState \<Rightarrow> SyncState" where
  "adjustFrameOffset delta s = s\<lparr>frameOffset := frameOffset s + delta\<rparr>"

text \<open>
  \<open>saved\<close> tells whether the awaited write to the results store resolved; when it
  rejects, the rest of the handler does not run.
\<close>

definition syncCurrentEvent ::
  "(real \<Rightarrow> string) \<Rightarrow> bool \<Rightarrow> real \<Rightarrow> SyncState \<Rightarrow> error + SyncState" where
  "syncCurrentEvent numStr saved currentTime s =
     (case (eventsData s, trackingData s) of
        (Some events, Some tracking) \<Rightarrow>
          if currentEventIndex s \<ge> int (numRows events) then Inr s
          else
            let newResults = (syncedResults s)(eventId numStr events (currentEventIndex s) \<mapsto> currentTime)
            in if \<not> saved then Inl StoreRejected
               else
                 let newIndex = findFirstUnsynced numStr (currentEventIndex s + 1) events newResults
                 in bindE (updateOffsetForEvent numStr newIndex events tracking newResults (frameOffset s))
                      (\<lambda>offset. Inr (s\<lparr>syncedResults := newResults,
                                         lastSyncOffset := frameOffset s,
                                         currentEventIndex := newIndex,
                                         frameOffset := offset\<rparr>))
      | _ \<Rightarrow> Inr s)"

definition skipEvent :: "(real \<Rightarrow> string) \<Rightarrow> SyncState \<Rightarrow> error + SyncState" where
  "skipEvent numStr s =
     (case (eventsData s, trackingData s) of
        (Some events, Some tracking) \<Rightarrow>
          moveTo numStr (findFirstUnsynced numStr (currentEventIndex s + 1) events (syncedResults s))
            events tracking s
      | _ \<Rightarrow> Inr s)"

definition uploadResults ::
  "(real \<Rightarrow> string) \<Rightarrow> bool \<Rightarrow> SyncedResults \<Rightarrow> SyncState \<Rightarrow> error + SyncState" where
  "uploadResults numStr saved results s =
     (case (eventsData s, trackingData s) of
        (Some events, Some tracking) \<Rightarrow>
          if \<not> saved then Inl StoreRejected
          else
            let firstUnsynced = findFirstUnsynced numStr 0 events results
            in bindE (updateOffsetForEvent numStr firstUnsynced events tracking results 0)
                 (\<lambda>offset. Inr (s\<lparr>syncedResults := results,
                                    currentEventIndex := firstUnsynced,
                                    frameOffset := offset,
                                    lastSyncOffset := 0\<rparr>))
      | _ \<Rightarrow> Inr s)"

text \<open>
  What the casts \<open>as number[]\<close> of \<open>getPeriodTimes\<close> and \<open>updateOffsetForEvent\<close> take for
  granted: the events have \<open>period_id\<close> and \<open>matched_time\<close> columns, no nominal time is a
  string, and the tracking dataset has both columns with a number as the time of each
  of its rows.
\<close>

definition wellTyped :: "ColumnarData \<Rightarrow> ColumnarData \<Rightarrow> bool" where
  "wellTyped events tracking =
     (columns events ''period_id'' \<noteq> None
      \<and> (\<exists>timeCol. columns events ''matched_time'' = Some timeCol
            \<and> (\<forall>cell \<in> set timeCol. \<forall>s. cell \<noteq> JStr s))
      \<and> columns tracking ''period_id'' \<noteq> None
      \<and> (\<exists>timeCol. columns tracking ''matched_time'' = Some timeCol
            \<and> (\<forall>i < numRows tracking. \<exists>r. colAt timeCol (int i) = JNum r)))"

section \<open>Importing a results file (SyncPage)\<close>

text \<open>The value that \<open>JSON.parse\<close> returns; an object is the list of its entries.\<close>

datatype json =
    JsonNull
  | JsonBool bool
  | JsonNumber real
  | JsonString string
  | JsonArray "json list"
  | JsonObject "(string \<times> json) list"




section \<open>The coordinate converter (optaConverter)\<close>

text \<open>
  Numbers are exact reals: the converter is modelled in exact arithmetic, and
  \<open>Math.round\<close> is rounding half up, \<open>\<lfloor>r + 1/2\<rfloor>\<close>. The source computes in IEEE 754
  doubles, whose rounding errors are not part of this model: where an exact
  intermediate value lies on or next to a rounding boundary, the source can return a
  neighbouring hundredth (at \<open>x = -50.4375\<close> the exact value is 2.18 and the source
  returns 2.17), and sums and differences of its results carry an error of their
  own. What is proved of \<open>realToOpta\<close> below is proved of the exact computation.
\<close>

definition PITCH_LENGTH :: real where "PITCH_LENGTH = 105"
definition PITCH_WIDTH :: real where "PITCH_WIDTH = 68"
definition PITCH_X_HALF :: real where "PITCH_X_HALF = PITCH_LENGTH / 2"
definition PITCH_Y_HALF :: real where "PITCH_Y_HALF = PITCH_WIDTH / 2"

definition X_BREAKS_OPTA :: "real list" where
  "X_BREAKS_OPTA = [0, 5.8, 11.5, 17, 20.4, 41, 50]"
definition X_BREAKS_REAL :: "real list" where
  "X_BREAKS_REAL = [0, 5.5, 11, 16.5, 20.15, 43.35, 52.5]"
definition Y_BREAKS_OPTA :: "real list" where
  "Y_BREAKS_OPTA = [0, 21.1, 36.8, 40, 44.2, 45.2, 50]"
definition Y_BREAKS_REAL :: "real list" where
  "Y_BREAKS_REAL = [0, 13.84, 24.84, 26.69, 30.22, 30.34, 34]"

definition REAL_X_MID :: real where "REAL_X_MID = 52.5"
definition REAL_Y_MID :: real where "REAL_Y_MID = 34"

text \<open>The loop \<open>while (i < sourceBreaks.length - 1 && value > sourceBreaks[i + 1]) i++\<close>.\<close>

function findInterval :: "real \<Rightarrow> real list \<Rightarrow> nat \<Rightarrow> nat" where
  "findInterval v sourceBreaks i =
     (if i < length sourceBreaks - 1 \<and> v > sourceBreaks ! (i + 1)
      then findInterval v sourceBreaks (i + 1) else i)"
  by pat_completeness auto
termination
  by (relation "measure (\<lambda>(v, sourceBreaks, i). length sourceBreaks - 1 - i)") auto

declare findInterval.simps [simp del]

text \<open>
  \<open>interp\<close> is only ever applied to the breakpoint tables above, which have seven
  entries each; the indices it reads are within a table of at least two entries.
\<close>

definition interp :: "real \<Rightarrow> real list \<Rightarrow> real list \<Rightarrow> real" where
  "interp v sourceBreaks targetBreaks =
     (let i0 = findInterval v sourceBreaks 0;
          i = (if i0 \<ge> length sourceBreaks - 1 then length sourceBreaks - 2 else i0);
          t = (v - sourceBreaks ! i) / (sourceBreaks ! (i + 1) - sourceBreaks ! i)
      in targetBreaks ! i + t * (targetBreaks ! (i + 1) - targetBreaks ! i))"

definition convertWithMirror :: "real \<Rightarrow> real list \<Rightarrow> real list \<Rightarrow> real \<Rightarrow> real" where
  "convertWithMirror v sourceBreaks targetBreaks sourceMid =
     (let isMirrored = (v > sourceMid);
          adjValue = (if isMirrored then 2 * sourceMid - v else v);
          targetMid = targetBreaks ! (length targetBreaks - 1);
          converted = interp adjValue sourceBreaks targetBreaks
      in if isMirrored then 2 * targetMid - converted else converted)"

definition mathRound :: "real \<Rightarrow> real" where
  "mathRound r = of_int \<lfloor>r + 1 / 2\<rfloor>"

definition realToOpta :: "real \<Rightarrow> real \<Rightarrow> real \<times> real" where
  "realToOpta x y =
     (let normX = (x * REAL_X_MID / PITCH_X_HALF) + REAL_X_MID;
          normY = (y * REAL_Y_MID / PITCH_Y_HALF) + REAL_Y_MID;
          optaX = convertWithMirror normX X_BREAKS_REAL X_BREAKS_OPTA REAL_X_MID;
          optaY = convertWithMirror normY Y_BREAKS_REAL Y_BREAKS_OPTA REAL_Y_MID
      in (mathRound (optaX * 100) / 100, mathRound (optaY * 100) / 100))"

text \<open>
  \<open>realToOpta\<close> on two cells. Each output axis depends on its own input axis only, so a
  \<open>NaN\<close> on one axis leaves the other axis a number.
\<close>

definition realToOptaCells :: "jsval \<Rightarrow> jsval \<Rightarrow> error + jsval \<times> jsval" where
  "realToOptaCells x y =
     bindE (toNumber x) (\<lambda>nx. bindE (toNumber y) (\<lambda>ny.
       Inr (case nx of None \<Rightarrow> JNaN
                     | Some a \<Rightarrow> JNum (fst (realToOpta a (case ny of None \<Rightarrow> 0 | Some b \<Rightarrow> b))),
            case ny of None \<Rightarrow> JNaN
                     | Some b \<Rightarrow> JNum (snd (realToOpta (case nx of None \<Rightarrow> 0 | Some a \<Rightarrow> a) b)))))"

fun convertRows :: "jsval list \<Rightarrow> jsval list \<Rightarrow> nat list \<Rightarrow> error + (jsval \<times> jsval) list" where
  "convertRows xArray yArray [] = Inr []"
| "convertRows xArray yArray (i # rows) =
     bindE (realToOptaCells (colAt xArray (int i)) (colAt yArray (int i))) (\<lambda>c.
       bindE (convertRows xArray yArray rows) (\<lambda>cs. Inr (c # cs)))"

text \<open>
  \<open>realToOptaArrays\<close>: \<open>optaX\<close> has the length of \<open>xArray\<close>; \<open>optaY\<close> is created with the
  length of \<open>yArray\<close> and written at the indices of \<open>xArray\<close>, so it keeps unwritten
  (\<open>undefined\<close>) entries when \<open>yArray\<close> is the longer one.
\<close>

definition realToOptaArrays :: "jsval list \<Rightarrow> jsval list \<Rightarrow> error + jsval list \<times> jsval list" where
  "realToOptaArrays xArray yArray =
     bindE (convertRows xArray yArray [0 ..< length xArray]) (\<lambda>cs.
       Inr (map fst cs, map snd cs @ replicate (length yArray - length xArray) JUndefined))"

text \<open>
  The segment index that \<open>interp\<close> computes before interpolating, and the line through
  the breakpoints of segment \<open>i\<close>; both are named for the statements about \<open>interp\<close>.
\<close>

definition segmentOf :: "real \<Rightarrow> real list \<Rightarrow> nat" where
  "segmentOf v sourceBreaks =
     (let i0 = findInterval v sourceBreaks 0
      in if i0 \<ge> length sourceBreaks - 1 then length sourceBreaks - 2 else i0)"

definition segmentLine :: "real list \<Rightarrow> real list \<Rightarrow> nat \<Rightarrow> real \<Rightarrow> real" where
  "segmentLine sourceBreaks targetBreaks i v =
     targetBreaks ! i
       + (v - sourceBreaks ! i) / (sourceBreaks ! (i + 1) - sourceBreaks ! i)
         * (targetBreaks ! (i + 1) - targetBreaks ! i)"

section \<open>Ingestion (UploadPage)\<close>

definition convertTrackingToOpta :: "ColumnarData \<Rightarrow> error + ColumnarData" where
  "convertTrackingToOpta d =
     (case (columns d ''pos_x'', columns d ''pos_y'') of
        (Some posXCol, Some posYCol) \<Rightarrow>
          bindE (realToOptaArrays posXCol posYCol) (\<lambda>(optaX, optaY).
            Inr (d\<lparr>columns := (columns d)(''pos_x'' \<mapsto> optaX, ''pos_y'' \<mapsto> optaY)\<rparr>))
      | _ \<Rightarrow> Inr d)"

text \<open>
  \<open>SYNCABLE_EVENT_TYPES\<close> is a \<open>Set\<close> of numbers; \<open>has\<close> finds a cell in it only when the
  cell is one of these numbers.
\<close>

definition SYNCABLE_EVENT_TYPES :: "real list" where
  "SYNCABLE_EVENT_TYPES = [1, 5, 49, 12, 44, 6, 8, 13, 14, 15, 16, 2]"

definition isSyncableEventType :: "jsval \<Rightarrow> bool" where
  "isSyncableEventType eventType =
     (case eventType of JNum n \<Rightarrow> n \<in> set SYNCABLE_EVENT_TYPES | _ \<Rightarrow> False)"

text \<open>The condition under which the loop of \<open>filterEventsToSync\<close> pushes row \<open>i\<close>.\<close>

definition isValidRow ::
  "jsval list \<Rightarrow> jsval list \<Rightarrow> jsval list \<Rightarrow> jsval list \<Rightarrow> nat \<Rightarrow> bool" where
  "isValidRow xCol yCol periodCol eventTypeCol i =
     (let x = colAt xCol (int i);
          y = colAt yCol (int i);
          period = colAt periodCol (int i);
          eventType = colAt eventTypeCol (int i)
      in x \<noteq> JNull \<and> x \<noteq> JUndefined \<and> x \<noteq> JNaN
         \<and> y \<noteq> JNull \<and> y \<noteq> JUndefined \<and> y \<noteq> JNaN
         \<and> (strictEq period (JNum 1) \<or> strictEq period (JNum 2))
         \<and> isSyncableEventType eventType)"

text \<open>
  The loop over \<open>fieldNames\<close> that fills \<open>filteredColumns\<close>. Mapping over no index never
  reads the column, so an absent column only throws when some row is kept.
\<close>

fun filterColumns ::
  "(string \<rightharpoonup> jsval list) \<Rightarrow> nat list \<Rightarrow> (string \<rightharpoonup> jsval list) \<Rightarrow> string list
     \<Rightarrow> error + (string \<rightharpoonup> jsval list)" where
  "filterColumns cols validIndices filteredColumns [] = Inr filteredColumns"
| "filterColumns cols validIndices filteredColumns (fieldName # names) =
     (case cols fieldName of
        None \<Rightarrow>
          if validIndices = []
          then filterColumns cols validIndices (filteredColumns(fieldName \<mapsto> [])) names
          else Inl TypeError
      | Some col \<Rightarrow>
          filterColumns cols validIndices
            (filteredColumns(fieldName \<mapsto> map (\<lambda>i. colAt col (int i)) validIndices)) names)"

definition filterEventsToSync :: "ColumnarData \<Rightarrow> error + ColumnarData" where
  "filterEventsToSync d =
     (case (columns d ''x'', columns d ''y'', columns d ''period_id'', columns d ''event_type_id'') of
        (Some xCol, Some yCol, Some periodCol, Some eventTypeCol) \<Rightarrow>
          (let validIndices = filter (isValidRow xCol yCol periodCol eventTypeCol) [0 ..< numRows d]
           in bindE (filterColumns (columns d) validIndices Map.empty (fieldNames d))
                (\<lambda>filteredColumns.
                   Inr \<lparr>columns = filteredColumns, numRows = length validIndices,
                        fieldNames = fieldNames d\<rparr>))
      | _ \<Rightarrow> Inr d)"

section \<open>The lookup of the specification\<close>

text \<open>
  Modelled from the spec: \<open>nearestIndexAtOrAfter(times, target)\<close> is not a function of
  the source; this is the specification's wording (the smallest index whose time is at
  least the target, and the last valid index when there is none), kept beside
  \<open>updateOffsetForEvent\<close> for comparison.
\<close>

definition nearestIndexAtOrAfter :: "real list \<Rightarrow> real \<Rightarrow> int" where
  "nearestIndexAtOrAfter ts target =
     (let k = length (takeWhile (\<lambda>t. t < target) ts)
      in if k < length ts then int k else int (length ts) - 1)"

section \<open>Worked examples\<close>

text \<open>
  The two events of the specification's confirm example, both in period 1, with
  nominal times 1000 and 2000, and a tracking dataset whose period-1 sample times are
  900, 950, ..., 2050.
\<close>

definition exampleEvents :: ColumnarData where
  "exampleEvents =
     \<lparr>columns = [''opta_event_id'' \<mapsto> [JStr ''E1'', JStr ''E2''],
                 ''period_id'' \<mapsto> [JNum 1, JNum 1],
                 ''matched_time'' \<mapsto> [JNum 1000, JNum 2000]],
      numRows = 2,
      fieldNames = [''opta_event_id'', ''period_id'', ''matched_time'']\<rparr>"

definition exampleTracking :: ColumnarData where
  "exampleTracking =
     \<lparr>columns = [''period_id'' \<mapsto> replicate 24 (JNum 1),
                 ''matched_time'' \<mapsto> map (\<lambda>k. JNum (900 + 50 * real k)) [0 ..< 24]],
      numRows = 24,
      fieldNames = [''period_id'', ''matched_time'']\<rparr>"

definition exampleState :: SyncState where
  "exampleState =
     \<lparr>eventsData = Some exampleEvents, trackingData = Some exampleTracking,
      syncedResults = Map.empty, currentEventIndex = 0, frameOffset = 2, lastSyncOffset = 0\<rparr>"


text \<open>
  One event with the numeric id 7, in period 1, whose nominal time 5000 lies after the
  last of the three period-1 samples 1000, 2000, 3000.
\<close>

definition lateEvents :: ColumnarData where
  "lateEvents =
     \<lparr>columns = [''opta_event_id'' \<mapsto> [JNum 7],
                 ''period_id'' \<mapsto> [JNum 1],
                 ''matched_time'' \<mapsto> [JNum 5000]],
      numRows = 1,
      fieldNames = [''opta_event_id'', ''period_id'', ''matched_time'']\<rparr>"

definition smallTracking :: ColumnarData where
  "smallTracking =
     \<lparr>columns = [''period_id'' \<mapsto> [JNum 1, JNum 1, JNum 1],
                 ''matched_time'' \<mapsto> [JNum 1000, JNum 2000, JNum 3000]],
      numRows = 3,
      fieldNames = [''period_id'', ''matched_time'']\<rparr>"

text \<open>
  Two events of which the first has the id \<open>constructor\<close>, a property name that every
  plain object inherits.
\<close>

definition namedEvents :: ColumnarData where
  "namedEvents =
     \<lparr>columns = [''opta_event_id'' \<mapsto> [JStr ''constructor'', JStr ''E2''],
                 ''period_id'' \<mapsto> [JNum 1, JNum 1],
                 ''matched_time'' \<mapsto> [JNum 1000, JNum 2000]],
      numRows = 2,
      fieldNames = [''opta_event_id'', ''period_id'', ''matched_time'']\<rparr>"





text \<open>
  A tracking dataset with two rows of positions and an events dataset of four rows, of
  which only the first is syncable: the second has a null \<open>x\<close>, the third is in period 3
  and the fourth has the event type 3.
\<close>

definition positionTracking :: ColumnarData where
  "positionTracking =
     \<lparr>columns = [''period_id'' \<mapsto> [JNum 1, JNum 1],
                 ''pos_x'' \<mapsto> [JNum (- 53.5), JNum 0],
                 ''pos_y'' \<mapsto> [JNum 0, JNull]],
      numRows = 2,
      fieldNames = [''period_id'', ''pos_x'', ''pos_y'']\<rparr>"

definition rawEvents :: ColumnarData where
  "rawEvents =
     \<lparr>columns = [''x'' \<mapsto> [JNum 10, JNull, JNum 30, JNum 40],
                 ''y'' \<mapsto> [JNum 20, JNum 20, JNum 20, JNum 20],
                 ''period_id'' \<mapsto> [JNum 1, JNum 1, JNum 3, JNum 2],
                 ''event_type_id'' \<mapsto> [JNum 1, JNum 1, JNum 1, JNum 3]],
      numRows = 4,
      fieldNames = [''x'', ''y'', ''period_id'', ''event_type_id'']\<rparr>"

section \<open>Scan for the first unsynced event\<close>



lemma findFirstUnsynced_stops:
  "findFirstUnsynced numStr startIndex events results < int (numRows events) \<Longrightarrow>
   \<not> isSynced numStr events results (findFirstUnsynced numStr startIndex events results)"
proof (induction numStr startIndex events results rule: findFirstUnsynced.induct)
  case (1 numStr index events results)
  show ?case
  proof (cases "index < int (numRows events) \<and> isSynced numStr events results index")
    case True
    then have unfold: "findFirstUnsynced numStr index events results =
        findFirstUnsynced numStr (index + 1) events results"
      by (subst findFirstUnsynced.simps) simp
    with "1.prems" "1.IH" True show ?thesis by simp
  next
    case False
    then have stop: "findFirstUnsynced numStr index events results = index"
      by (subst findFirstUnsynced.simps) auto
    with "1.prems" False show ?thesis by simp
  qed
qed






lemma exampleEvents_ids:
  "eventId numStr exampleEvents 0 = ''E1''" "eventId numStr exampleEvents 1 = ''E2''"
  by (simp_all add: eventId_def exampleEvents_def nullish_def colAt_def)




lemma example_scan_all_synced:
  "findFirstUnsynced numStr 0 exampleEvents [''E1'' \<mapsto> 1100, ''E2'' \<mapsto> 2100] = 2"
  by (simp add: findFirstUnsynced.simps [of _ 0] findFirstUnsynced.simps [of _ 1]
      findFirstUnsynced.simps [of _ 2] isSynced_def jsIn_def exampleEvents_ids)
    (simp add: exampleEvents_def)


lemma namedEvents_ids:
  "eventId numStr namedEvents 0 = ''constructor''" "eventId numStr namedEvents 1 = ''E2''"
  by (simp_all add: eventId_def namedEvents_def nullish_def colAt_def)




section \<open>Restoring the offset of an event\<close>

lemma updateOffsetForEvent_beyond:
  "int (numRows events) \<le> eventIndex \<Longrightarrow>
   updateOffsetForEvent numStr eventIndex events tracking results fallback = Inr fallback"
  by (simp add: updateOffsetForEvent_def)

lemma updateOffsetForEvent_unsynced:
  assumes "columns events ''period_id'' \<noteq> None" and "columns events ''matched_time'' \<noteq> None"
    and "\<not> isSynced numStr events results eventIndex"
  shows "updateOffsetForEvent numStr eventIndex events tracking results fallback = Inr fallback"
proof -
  from assms(1) obtain pc where pc: "columns events ''period_id'' = Some pc" by auto
  from assms(2) obtain tc where tc: "columns events ''matched_time'' = Some tc" by auto
  from assms(3) have "\<not> jsIn (eventId numStr events eventIndex) results"
    by (simp add: isSynced_def)
  then show ?thesis
    by (simp add: updateOffsetForEvent_def pc tc bindE_def)
qed

lemma updateOffsetForEvent_at_scan_result:
  assumes "columns events ''period_id'' \<noteq> None" and "columns events ''matched_time'' \<noteq> None"
  shows "updateOffsetForEvent numStr (findFirstUnsynced numStr i events results) events tracking
           results fallback = Inr fallback"
proof (cases "findFirstUnsynced numStr i events results < int (numRows events)")
  case True
  then have "\<not> isSynced numStr events results (findFirstUnsynced numStr i events results)"
    by (rule findFirstUnsynced_stops)
  with assms show ?thesis by (rule updateOffsetForEvent_unsynced)
next
  case False
  then show ?thesis by (simp add: updateOffsetForEvent_beyond)
qed

lemma smallTracking_period_1:
  "getPeriodTimes smallTracking (JNum 1) = Inr [1000, 2000, 3000]"
  by (simp add: getPeriodTimes_def smallTracking_def bindE_def colAt_def strictEq_def upt_rec)

lemma findIndexFrom_takeWhile:
  "findIndexFrom p xs i =
     (if \<exists>x \<in> set xs. p x then i + int (length (takeWhile (\<lambda>x. \<not> p x) xs)) else - 1)"
  by (induction xs arbitrary: i) auto

text \<open>
  Where some sample is at or after the target, the lookup of the source is the lookup
  of the specification; where none is, the source has \<open>-1\<close> and the specification the
  last index.
\<close>

lemma findIndex_nearest:
  "findIndex (\<lambda>t. t \<ge> target) ts =
     (if \<exists>t \<in> set ts. t \<ge> target then nearestIndexAtOrAfter ts target else - 1)"
proof -
  have tw: "takeWhile (\<lambda>t. \<not> target \<le> t) ts = takeWhile (\<lambda>t. t < target) ts"
    by (rule takeWhile_cong) auto
  have "length (takeWhile (\<lambda>t. t < target) ts) < length ts" if "\<exists>t \<in> set ts. t \<ge> target"
    using that by (induction ts) auto
  then show ?thesis
    by (auto simp add: findIndex_def findIndexFrom_takeWhile tw nearestIndexAtOrAfter_def Let_def)
qed

lemma getPeriodTimes_sorted_distinct:
  "getPeriodTimes tracking periodId = Inr ts \<Longrightarrow> sorted ts \<and> distinct ts"
  by (auto simp add: getPeriodTimes_def bindE_def split: sum.splits)

text \<open>
  For a synced event whose nominal time and confirmed time both have a sample at or
  after them, the source returns the difference of the two lookups of the
  specification.
\<close>

lemma updateOffsetForEvent_synced_in_range:
  assumes "eventIndex < int (numRows events)"
    and "idxAt (columns events ''period_id'') eventIndex = Inr eventPeriod"
    and "idxAt (columns events ''matched_time'') eventIndex = Inr (JNum eventTime)"
    and "results (eventId numStr events eventIndex) = Some syncedTime"
    and "getPeriodTimes tracking eventPeriod = Inr periodTimes"
    and "\<exists>t \<in> set periodTimes. t \<ge> eventTime" and "\<exists>t \<in> set periodTimes. t \<ge> syncedTime"
  shows "updateOffsetForEvent numStr eventIndex events tracking results fallback =
           Inr (nearestIndexAtOrAfter periodTimes syncedTime
                  - nearestIndexAtOrAfter periodTimes eventTime)"
proof -
  from assms(6) have ne: "periodTimes \<noteq> []" by auto
  have "0 \<le> nearestIndexAtOrAfter periodTimes eventTime"
    using ne by (cases periodTimes) (simp_all add: nearestIndexAtOrAfter_def Let_def)
  moreover from assms(4) have "jsIn (eventId numStr events eventIndex) results"
    by (simp add: jsIn_def)
  ultimately show ?thesis
    using assms(1) ne
    by (simp add: updateOffsetForEvent_def assms(2,3,4,5,6,7) bindE_def findIndex_nearest Let_def)
qed

text \<open>
  C1. The event with id 7 has nominal time 5000, after the last period-1 sample, and is
  confirmed at 2000. The source turns the failed base lookup into index 0 and returns
  \<open>1 - 0 = 1\<close>, where the lookup of the specification clamps to the last index 2 and
  gives \<open>1 - 2 = -1\<close>. Confirmed at 9000, after the last sample, with nominal time
  5000 as before, the source returns the failed lookup \<open>-1\<close> itself, where the
  specification gives \<open>2 - 2 = 0\<close>.
\<close>

theorem updateOffsetForEvent_late_event:
  "updateOffsetForEvent showNumber 0 lateEvents smallTracking [''7'' \<mapsto> 2000] 0 = Inr 1
   \<and> nearestIndexAtOrAfter [1000, 2000, 3000] 2000 - nearestIndexAtOrAfter [1000, 2000, 3000] 5000 = - 1
   \<and> updateOffsetForEvent showNumber 0 lateEvents smallTracking [''7'' \<mapsto> 9000] 0 = Inr (- 1)
   \<and> nearestIndexAtOrAfter [1000, 2000, 3000] 9000 - nearestIndexAtOrAfter [1000, 2000, 3000] 5000 = 0"
proof -
  have id7: "eventId showNumber lateEvents 0 = ''7''"
    by (simp add: eventId_def nullish_def showNumber_def digitChar_def lateEvents_def colAt_def)
  have cols: "idxAt (columns lateEvents ''period_id'') 0 = Inr (JNum 1)"
    "idxAt (columns lateEvents ''matched_time'') 0 = Inr (JNum 5000)"
    by (simp_all add: lateEvents_def colAt_def)
  have rows: "numRows lateEvents = 1" by (simp add: lateEvents_def)
  have a: "updateOffsetForEvent showNumber 0 lateEvents smallTracking [''7'' \<mapsto> 2000] 0 = Inr 1"
    by (simp add: updateOffsetForEvent_def id7 cols rows smallTracking_period_1 bindE_def
        findIndex_def jsIn_def)
  have b: "updateOffsetForEvent showNumber 0 lateEvents smallTracking [''7'' \<mapsto> 9000] 0 = Inr (- 1)"
    by (simp add: updateOffsetForEvent_def id7 cols rows smallTracking_period_1 bindE_def
        findIndex_def jsIn_def)
  have c: "nearestIndexAtOrAfter [1000, 2000, 3000] 2000 = 1"
    "nearestIndexAtOrAfter [1000, 2000, 3000] 5000 = 2"
    "nearestIndexAtOrAfter [1000, 2000, 3000] 9000 = 2"
    by (simp_all add: nearestIndexAtOrAfter_def)
  from a b c show ?thesis by simp
qed

lemma numbersOf_defined:
  "\<forall>v \<in> set cells. \<exists>r. v = JNum r \<Longrightarrow> \<exists>ts. numbersOf cells = Inr ts"
proof (induction cells)
  case Nil
  then show ?case by simp
next
  case (Cons v cells)
  then obtain r ts where "v = JNum r" "numbersOf cells = Inr ts" by auto
  then show ?case by (simp add: bindE_def)
qed

lemma collectTimes_defined:
  "\<forall>i \<in> set rows. \<exists>r. colAt timeCol (int i) = JNum r \<Longrightarrow>
   \<exists>cells. collectTimes (Some periodCol) (Some timeCol) periodId rows = Inr cells
      \<and> (\<forall>v \<in> set cells. \<exists>r. v = JNum r)"
proof (induction rows)
  case Nil
  then show ?case by simp
next
  case (Cons i rows)
  then obtain cells where cells: "collectTimes (Some periodCol) (Some timeCol) periodId rows = Inr cells"
    "\<forall>v \<in> set cells. \<exists>r. v = JNum r" by auto
  from Cons.prems obtain r where r: "colAt timeCol (int i) = JNum r" by auto
  show ?case
  proof (cases "strictEq (colAt periodCol (int i)) periodId")
    case True
    then have "collectTimes (Some periodCol) (Some timeCol) periodId (i # rows) = Inr (JNum r # cells)"
      by (simp add: bindE_def cells(1) r)
    with cells(2) show ?thesis by simp
  next
    case False
    then have "collectTimes (Some periodCol) (Some timeCol) periodId (i # rows) = Inr cells"
      by (simp add: bindE_def cells(1))
    with cells(2) show ?thesis by simp
  qed
qed

lemma getPeriodTimes_defined:
  assumes "columns tracking ''period_id'' = Some periodCol"
    and "columns tracking ''matched_time'' = Some timeCol"
    and "\<forall>i < numRows tracking. \<exists>r. colAt timeCol (int i) = JNum r"
  shows "\<exists>ts. getPeriodTimes tracking periodId = Inr ts"
proof -
  from assms(3) have "\<forall>i \<in> set [0 ..< numRows tracking]. \<exists>r. colAt timeCol (int i) = JNum r"
    by simp
  from collectTimes_defined [OF this, of periodCol periodId]
  obtain cells where cells: "collectTimes (Some periodCol) (Some timeCol) periodId
      [0 ..< numRows tracking] = Inr cells" "\<forall>v \<in> set cells. \<exists>r. v = JNum r"
    by auto
  from numbersOf_defined [OF cells(2)] obtain ts where "numbersOf cells = Inr ts" by auto
  with cells(1) show ?thesis by (simp add: getPeriodTimes_def assms(1,2) bindE_def)
qed

lemma toNumber_defined: "\<forall>s. v \<noteq> JStr s \<Longrightarrow> \<exists>n. toNumber v = Inr n"
  by (cases v) simp_all

lemma updateOffsetForEvent_defined:
  assumes "wellTyped events tracking"
  shows "\<exists>offset. updateOffsetForEvent numStr eventIndex events tracking results fallback = Inr offset"
proof -
  from assms obtain pc tc tpc ttc where
    pc: "columns events ''period_id'' = Some pc" and
    tc: "columns events ''matched_time'' = Some tc" and
    nostr: "\<forall>cell \<in> set tc. \<forall>s. cell \<noteq> JStr s" and
    tpc: "columns tracking ''period_id'' = Some tpc" and
    ttc: "columns tracking ''matched_time'' = Some ttc" and
    nums: "\<forall>i < numRows tracking. \<exists>r. colAt ttc (int i) = JNum r"
    by (auto simp add: wellTyped_def)
  have "\<forall>s. colAt tc eventIndex \<noteq> JStr s" using nostr by (auto simp add: colAt_def)
  then obtain target where target: "toNumber (colAt tc eventIndex) = Inr target"
    using toNumber_defined by blast
  obtain ts where ts: "getPeriodTimes tracking (colAt pc eventIndex) = Inr ts"
    using getPeriodTimes_defined [OF tpc ttc nums] by blast
  show ?thesis
    by (cases "jsIn (eventId numStr events eventIndex) results")
      (simp_all add: updateOffsetForEvent_def pc tc ts target bindE_def Let_def)
qed

section \<open>Confirming the current event\<close>

text \<open>
  C2. With both datasets loaded, the \<open>period_id\<close> and \<open>matched_time\<close> columns of the
  events present and the write to the results store resolved: below \<open>numRows\<close>, confirm
  stores the tracking time under the id of the current event (replacing an older
  entry), makes the offset in force the new \<open>lastSyncOffset\<close>, moves the cursor to
  \<open>findFirstUnsynced (currentEventIndex + 1)\<close> over the new map and sets \<open>frameOffset\<close> to
  what \<open>updateOffsetForEvent\<close> returns there with the offset in force as fallback,
  which is that offset itself. At or beyond \<open>numRows\<close> confirm changes nothing.
\<close>

theorem syncCurrentEvent_confirm:
  assumes "eventsData s = Some events" and "trackingData s = Some tracking"
    and "columns events ''period_id'' \<noteq> None" and "columns events ''matched_time'' \<noteq> None"
  shows
    "(currentEventIndex s < int (numRows events) \<longrightarrow>
        syncCurrentEvent numStr True t s =
          Inr (s\<lparr>syncedResults := (syncedResults s)(eventId numStr events (currentEventIndex s) \<mapsto> t),
                 lastSyncOffset := frameOffset s,
                 currentEventIndex :=
                   findFirstUnsynced numStr (currentEventIndex s + 1) events
                     ((syncedResults s)(eventId numStr events (currentEventIndex s) \<mapsto> t)),
                 frameOffset := frameOffset s\<rparr>)
        \<and> updateOffsetForEvent numStr
             (findFirstUnsynced numStr (currentEventIndex s + 1) events
                ((syncedResults s)(eventId numStr events (currentEventIndex s) \<mapsto> t)))
             events tracking
             ((syncedResults s)(eventId numStr events (currentEventIndex s) \<mapsto> t))
             (frameOffset s) = Inr (frameOffset s))
     \<and> (int (numRows events) \<le> currentEventIndex s \<longrightarrow> syncCurrentEvent numStr saved t s = Inr s)"
proof (intro conjI impI)
  let ?res = "(syncedResults s)(eventId numStr events (currentEventIndex s) \<mapsto> t)"
  let ?idx = "findFirstUnsynced numStr (currentEventIndex s + 1) events ?res"
  have off: "updateOffsetForEvent numStr ?idx events tracking ?res (frameOffset s) = Inr (frameOffset s)"
    using assms(3,4) by (rule updateOffsetForEvent_at_scan_result)
  then show "updateOffsetForEvent numStr ?idx events tracking ?res (frameOffset s) = Inr (frameOffset s)" .
  assume "currentEventIndex s < int (numRows events)"
  then show "syncCurrentEvent numStr True t s =
      Inr (s\<lparr>syncedResults := ?res, lastSyncOffset := frameOffset s,
             currentEventIndex := ?idx, frameOffset := frameOffset s\<rparr>)"
    using assms(1,2) off by (simp add: syncCurrentEvent_def Let_def bindE_def)
next
  assume "int (numRows events) \<le> currentEventIndex s"
  then show "syncCurrentEvent numStr saved t s = Inr s"
    using assms(1,2) by (simp add: syncCurrentEvent_def)
qed

text \<open>
  The example of the specification: the offset in force is 2 when E1 is confirmed at
  1100. Afterwards E1 maps to 1100, \<open>lastSyncOffset\<close> is 2, the cursor is at E2 (index
  1), and E2 starts with offset 2.
\<close>

theorem syncCurrentEvent_confirm_witness:
  "eventsData exampleState = Some exampleEvents \<and> trackingData exampleState = Some exampleTracking
   \<and> columns exampleEvents ''period_id'' \<noteq> None \<and> columns exampleEvents ''matched_time'' \<noteq> None
   \<and> currentEventIndex exampleState < int (numRows exampleEvents)
   \<and> frameOffset exampleState = 2
   \<and> syncCurrentEvent showNumber True 1100 exampleState =
        Inr (exampleState\<lparr>syncedResults := [''E1'' \<mapsto> 1100], lastSyncOffset := 2,
                          currentEventIndex := 1, frameOffset := 2\<rparr>)
   \<and> int (numRows exampleEvents) \<le> currentEventIndex (exampleState\<lparr>currentEventIndex := 2\<rparr>)
   \<and> syncCurrentEvent showNumber True 1100 (exampleState\<lparr>currentEventIndex := 2\<rparr>) =
        Inr (exampleState\<lparr>currentEventIndex := 2\<rparr>)"
proof -
  have h: "eventsData exampleState = Some exampleEvents" "trackingData exampleState = Some exampleTracking"
    "columns exampleEvents ''period_id'' \<noteq> None" "columns exampleEvents ''matched_time'' \<noteq> None"
    by (simp_all add: exampleState_def exampleEvents_def)
  have cur: "currentEventIndex exampleState = 0" "frameOffset exampleState = 2"
    "syncedResults exampleState = Map.empty" "numRows exampleEvents = 2"
    by (simp_all add: exampleState_def exampleEvents_def)
  have scan: "findFirstUnsynced showNumber 1 exampleEvents [''E1'' \<mapsto> 1100] = 1"
    by (simp add: findFirstUnsynced.simps [of _ 1] isSynced_def jsIn_def objectPrototypeNames_def
        exampleEvents_ids cur)
  have h2: "eventsData (exampleState\<lparr>currentEventIndex := 2\<rparr>) = Some exampleEvents"
    "trackingData (exampleState\<lparr>currentEventIndex := 2\<rparr>) = Some exampleTracking"
    by (simp_all add: exampleState_def)
  show ?thesis
    using h cur syncCurrentEvent_confirm [OF h, of showNumber 1100 True]
      syncCurrentEvent_confirm [OF h2 h(3,4), of showNumber 1100 True]
    by (simp add: exampleEvents_ids scan)
qed

section \<open>Importing results\<close>

text \<open>
  C3. With both datasets loaded, the \<open>period_id\<close> and \<open>matched_time\<close> columns of the
  events present and the write to the results store resolved, an import replaces the
  whole map by the imported one (nothing of the old map is kept), puts the cursor at
  \<open>findFirstUnsynced 0\<close> over the imported map, sets \<open>frameOffset\<close> to what
  \<open>updateOffsetForEvent\<close> returns there with fallback 0, which is 0, and resets
  \<open>lastSyncOffset\<close> to 0.
\<close>

theorem uploadResults_replaces:
  assumes "eventsData s = Some events" and "trackingData s = Some tracking"
    and "columns events ''period_id'' \<noteq> None" and "columns events ''matched_time'' \<noteq> None"
  shows
    "uploadResults numStr True R s =
       Inr (s\<lparr>syncedResults := R,
              currentEventIndex := findFirstUnsynced numStr 0 events R,
              frameOffset := 0,
              lastSyncOffset := 0\<rparr>)
     \<and> updateOffsetForEvent numStr (findFirstUnsynced numStr 0 events R) events tracking R 0 = Inr 0"
proof -
  have off: "updateOffsetForEvent numStr (findFirstUnsynced numStr 0 events R) events tracking R 0 = Inr 0"
    using assms(3,4) by (rule updateOffsetForEvent_at_scan_result)
  with assms(1,2) show ?thesis
    by (simp add: uploadResults_def Let_def bindE_def)
qed

text \<open>
  The example of the specification: the map holds E1 at 1100 and E2 at 1900, and the
  map holding only E2 at 2100 is imported. Afterwards the map is exactly the imported
  one, E1 has no entry, and the cursor is at E1 (index 0), the first unsynced event.
\<close>

theorem uploadResults_replaces_witness:
  "eventsData (exampleState\<lparr>syncedResults := [''E1'' \<mapsto> 1100, ''E2'' \<mapsto> 1900]\<rparr>) = Some exampleEvents
   \<and> trackingData (exampleState\<lparr>syncedResults := [''E1'' \<mapsto> 1100, ''E2'' \<mapsto> 1900]\<rparr>)
        = Some exampleTracking
   \<and> columns exampleEvents ''period_id'' \<noteq> None \<and> columns exampleEvents ''matched_time'' \<noteq> None
   \<and> uploadResults showNumber True [''E2'' \<mapsto> 2100]
        (exampleState\<lparr>syncedResults := [''E1'' \<mapsto> 1100, ''E2'' \<mapsto> 1900]\<rparr>) =
        Inr (exampleState\<lparr>syncedResults := [''E2'' \<mapsto> 2100], currentEventIndex := 0,
                          frameOffset := 0, lastSyncOffset := 0\<rparr>)
   \<and> [''E2'' \<mapsto> (2100::real)] ''E1'' = None"
proof -
  let ?s = "exampleState\<lparr>syncedResults := [''E1'' \<mapsto> 1100, ''E2'' \<mapsto> 1900]\<rparr>"
  have h: "eventsData ?s = Some exampleEvents" "trackingData ?s = Some exampleTracking"
    "columns exampleEvents ''period_id'' \<noteq> None" "columns exampleEvents ''matched_time'' \<noteq> None"
    by (simp_all add: exampleState_def exampleEvents_def)
  have scan: "findFirstUnsynced showNumber 0 exampleEvents [''E2'' \<mapsto> 2100] = 0"
    by (simp add: findFirstUnsynced.simps [of _ 0] isSynced_def jsIn_def objectPrototypeNames_def
        exampleEvents_ids)
  show ?thesis
    using h uploadResults_replaces [OF h, of showNumber "[''E2'' \<mapsto> 2100]"]
    by (simp add: scan)
qed

section \<open>Navigation\<close>

lemma moveTo_unfold:
  "moveTo numStr c events tracking s =
     bindE (updateOffsetForEvent numStr c events tracking (syncedResults s) (lastSyncOffset s))
       (\<lambda>offset. Inr (s\<lparr>currentEventIndex := c, frameOffset := offset\<rparr>))"
  by (simp add: moveTo_def)

lemma moveTo_defined:
  "wellTyped events tracking \<Longrightarrow> \<exists>s'. moveTo numStr c events tracking s = Inr s'"
  using updateOffsetForEvent_defined [of events tracking numStr c "syncedResults s" "lastSyncOffset s"]
  by (auto simp add: moveTo_unfold bindE_def)



lemma exampleTracking_period_1:
  "getPeriodTimes exampleTracking (JNum 1) =
     Inr [900, 950, 1000, 1050, 1100, 1150, 1200, 1250, 1300, 1350, 1400, 1450,
          1500, 1550, 1600, 1650, 1700, 1750, 1800, 1850, 1900, 1950, 2000, 2050]"
  by (simp add: getPeriodTimes_def exampleTracking_def bindE_def colAt_def strictEq_def upt_rec)


text \<open>
  For the event with the id \<open>constructor\<close> the test \<open>eventId in results\<close> holds with
  nothing confirmed; what is read as its confirmed time is not a number, no sample
  compares at or after it, and the offset is \<open>-1 - 2\<close>, the failed lookup minus the
  index of the nominal time 1000.
\<close>

lemma namedEvents_offset:
  "updateOffsetForEvent numStr 0 namedEvents exampleTracking Map.empty fallback = Inr (- 3)"
proof -
  have cols: "idxAt (columns namedEvents ''period_id'') 0 = Inr (JNum 1)"
    "idxAt (columns namedEvents ''matched_time'') 0 = Inr (JNum 1000)"
    by (simp_all add: namedEvents_def colAt_def)
  have rows: "numRows namedEvents = 2" by (simp add: namedEvents_def)
  have "in": "jsIn ''constructor'' Map.empty"
    by (simp add: jsIn_def objectPrototypeNames_def)
  show ?thesis
    by (simp add: updateOffsetForEvent_def namedEvents_ids cols rows "in" exampleTracking_period_1
        bindE_def findIndex_def)
qed




section \<open>Piecewise-linear interpolation\<close>

lemma findInterval_bounds:
  "k \<le> length S - 1 \<Longrightarrow> k \<le> findInterval v S k \<and> findInterval v S k \<le> length S - 1"
proof (induction v S k rule: findInterval.induct)
  case (1 v S i)
  show ?case
  proof (cases "i < length S - 1 \<and> v > S ! (i + 1)")
    case True
    then have "findInterval v S i = findInterval v S (i + 1)"
      by (subst findInterval.simps) simp
    moreover from True 1 have "i + 1 \<le> findInterval v S (i + 1) \<and> findInterval v S (i + 1) \<le> length S - 1"
      by simp
    ultimately show ?thesis by simp
  next
    case False
    then have "findInterval v S i = i" by (subst findInterval.simps) auto
    with 1 show ?thesis by simp
  qed
qed

lemma findInterval_stop:
  "findInterval v S k < length S - 1 \<Longrightarrow> v \<le> S ! (findInterval v S k + 1)"
proof (induction v S k rule: findInterval.induct)
  case (1 v S i)
  show ?case
  proof (cases "i < length S - 1 \<and> v > S ! (i + 1)")
    case True
    then have "findInterval v S i = findInterval v S (i + 1)"
      by (subst findInterval.simps) simp
    with True 1 show ?thesis by simp
  next
    case False
    then have eq: "findInterval v S i = i" by (subst findInterval.simps) auto
    with "1.prems" False show ?thesis by auto
  qed
qed

lemma findInterval_passed:
  "k \<le> j \<Longrightarrow> j < findInterval v S k \<Longrightarrow> S ! (j + 1) < v"
proof (induction v S k rule: findInterval.induct)
  case (1 v S i)
  show ?case
  proof (cases "i < length S - 1 \<and> v > S ! (i + 1)")
    case True
    then have eq: "findInterval v S i = findInterval v S (i + 1)"
      by (subst findInterval.simps) simp
    show ?thesis
    proof (cases "j = i")
      case True
      with \<open>i < length S - 1 \<and> v > S ! (i + 1)\<close> show ?thesis by simp
    next
      case False
      with "1.prems" eq have "i + 1 \<le> j" "j < findInterval v S (i + 1)" by simp_all
      with "1.IH" True show ?thesis by simp
    qed
  next
    case False
    then have "findInterval v S i = i" by (subst findInterval.simps) auto
    with "1.prems" show ?thesis by simp
  qed
qed

lemma interp_segment: "interp v S T = segmentLine S T (segmentOf v S) v"
  by (simp add: interp_def segmentOf_def segmentLine_def Let_def)

lemma segmentOf_range: "2 \<le> length S \<Longrightarrow> segmentOf v S + 1 < length S"
  using findInterval_bounds [of 0 S v] by (auto simp add: segmentOf_def Let_def)

lemma segmentOf_upper:
  assumes "2 \<le> length S" "v \<le> S ! (length S - 1)"
  shows "v \<le> S ! (segmentOf v S + 1)"
proof (cases "findInterval v S 0 \<ge> length S - 1")
  case True
  then have "segmentOf v S = length S - 2" by (simp add: segmentOf_def)
  with assms show ?thesis by (simp add: Suc_diff_Suc numeral_2_eq_2)
next
  case False
  then have "segmentOf v S = findInterval v S 0" by (simp add: segmentOf_def)
  with False findInterval_stop [of v S 0] show ?thesis by simp
qed

lemma segmentOf_lower:
  assumes "2 \<le> length S" "S ! 0 \<le> v" "sorted_wrt (<) S"
  shows "S ! segmentOf v S \<le> v"
proof (cases "segmentOf v S")
  case 0
  with assms show ?thesis by simp
next
  case (Suc j)
  show ?thesis
  proof (cases "findInterval v S 0 \<ge> length S - 1")
    case True
    with findInterval_bounds [of 0 S v] have top: "findInterval v S 0 = length S - 1" by simp
    from True have seg: "segmentOf v S = length S - 2" by (simp add: segmentOf_def)
    with Suc have "j < findInterval v S 0" using top by simp
    then have "S ! (j + 1) < v" using findInterval_passed [of 0 j v S] by simp
    with Suc show ?thesis by simp
  next
    case False
    then have "segmentOf v S = findInterval v S 0" by (simp add: segmentOf_def)
    with Suc have "j < findInterval v S 0" by simp
    then have "S ! (j + 1) < v" using findInterval_passed [of 0 j v S] by simp
    with Suc show ?thesis by simp
  qed
qed

lemma strict_nth_mono:
  "sorted_wrt (<) (S :: real list) \<Longrightarrow> i \<le> j \<Longrightarrow> j < length S \<Longrightarrow> S ! i \<le> S ! j"
  by (cases "i = j") (auto simp add: sorted_wrt_iff_nth_less less_imp_le)

lemma strict_nth_less:
  "sorted_wrt (<) (S :: real list) \<Longrightarrow> i < j \<Longrightarrow> j < length S \<Longrightarrow> S ! i < S ! j"
  by (simp add: sorted_wrt_iff_nth_less)

lemma segmentLine_left: "segmentLine S T i (S ! i) = T ! i"
  by (simp add: segmentLine_def)

lemma segmentLine_right: "S ! i < S ! (i + 1) \<Longrightarrow> segmentLine S T i (S ! (i + 1)) = T ! (i + 1)"
  by (simp add: segmentLine_def)

lemma segmentLine_between:
  assumes "S ! i < S ! (i + 1)" "T ! i \<le> T ! (i + 1)" "S ! i \<le> v" "v \<le> S ! (i + 1)"
  shows "T ! i \<le> segmentLine S T i v \<and> segmentLine S T i v \<le> T ! (i + 1)"
proof -
  define t where "t = (v - S ! i) / (S ! (i + 1) - S ! i)"
  have t0: "0 \<le> t" using assms(1,3) by (simp add: t_def)
  have t1: "t \<le> 1" using assms(1,4) by (simp add: t_def)
  have d: "0 \<le> T ! (i + 1) - T ! i" using assms(2) by simp
  have eq: "segmentLine S T i v = T ! i + t * (T ! (i + 1) - T ! i)"
    by (simp add: segmentLine_def t_def)
  have lo: "0 \<le> t * (T ! (i + 1) - T ! i)" using t0 d by simp
  have hi: "t * (T ! (i + 1) - T ! i) \<le> 1 * (T ! (i + 1) - T ! i)"
    using t1 d by (rule mult_right_mono)
  from eq lo hi show ?thesis by simp
qed

lemma segmentLine_below:
  assumes "S ! i < S ! (i + 1)" "T ! i < T ! (i + 1)" "v < S ! i"
  shows "segmentLine S T i v < T ! i"
proof -
  have "(v - S ! i) / (S ! (i + 1) - S ! i) < 0" using assms(1,3) by (simp add: divide_neg_pos)
  moreover have "0 < T ! (i + 1) - T ! i" using assms(2) by simp
  ultimately have "(v - S ! i) / (S ! (i + 1) - S ! i) * (T ! (i + 1) - T ! i) < 0"
    by (rule mult_neg_pos)
  then show ?thesis by (simp add: segmentLine_def)
qed

lemma segmentLine_above:
  assumes "S ! i < S ! (i + 1)" "T ! i < T ! (i + 1)" "S ! (i + 1) < v"
  shows "T ! (i + 1) < segmentLine S T i v"
proof -
  have "1 < (v - S ! i) / (S ! (i + 1) - S ! i)" using assms(1,3) by simp
  moreover have d: "0 < T ! (i + 1) - T ! i" using assms(2) by simp
  ultimately have "1 * (T ! (i + 1) - T ! i) < (v - S ! i) / (S ! (i + 1) - S ! i) * (T ! (i + 1) - T ! i)"
    by (intro mult_strict_right_mono) simp_all
  then show ?thesis by (simp add: segmentLine_def)
qed

lemma segmentOf_below:
  assumes "2 \<le> length S" "sorted_wrt (<) S" "v < S ! 0"
  shows "segmentOf v S = 0"
proof -
  have "S ! 0 < S ! 1" using assms(1,2) by (intro strict_nth_less) simp_all
  with assms(3) have "\<not> v > S ! (0 + 1)" by simp
  then have "findInterval v S 0 = 0" by (subst findInterval.simps) simp
  with assms(1) show ?thesis by (simp add: segmentOf_def)
qed

lemma segmentOf_above:
  assumes "2 \<le> length S" "sorted_wrt (<) S" "S ! (length S - 1) < v"
  shows "segmentOf v S = length S - 2"
proof -
  have "\<not> findInterval v S 0 < length S - 1"
  proof
    assume less: "findInterval v S 0 < length S - 1"
    then have "v \<le> S ! (findInterval v S 0 + 1)" by (rule findInterval_stop)
    moreover have "S ! (findInterval v S 0 + 1) \<le> S ! (length S - 1)"
      using assms(1,2) less by (intro strict_nth_mono) simp_all
    ultimately show False using assms(3) by simp
  qed
  then show ?thesis by (simp add: segmentOf_def)
qed

lemma interp_on_segment:
  assumes len: "2 \<le> length S" and inc: "sorted_wrt (<) S"
    and i: "i + 1 < length S" and lo: "S ! i \<le> v" and hi: "v \<le> S ! (i + 1)"
  shows "interp v S T = segmentLine S T i v"
proof -
  let ?k = "segmentOf v S"
  have k: "?k + 1 < length S" using len by (rule segmentOf_range)
  have "S ! 0 \<le> S ! i" using inc i by (intro strict_nth_mono) simp_all
  with lo have v0: "S ! 0 \<le> v" by simp
  have "S ! (i + 1) \<le> S ! (length S - 1)" using inc i by (intro strict_nth_mono) simp_all
  with hi have v1: "v \<le> S ! (length S - 1)" by simp
  have klo: "S ! ?k \<le> v" using len v0 inc by (rule segmentOf_lower)
  have khi: "v \<le> S ! (?k + 1)" using len v1 by (rule segmentOf_upper)
  have ki: "S ! ?k < S ! (?k + 1)" using inc k by (intro strict_nth_less) simp_all
  have ii: "S ! i < S ! (i + 1)" using inc i by (intro strict_nth_less) simp_all
  consider "?k = i" | "?k < i" | "i < ?k" by linarith
  then have "segmentLine S T ?k v = segmentLine S T i v"
  proof cases
    case 1
    then show ?thesis by simp
  next
    case 2
    then have "S ! (?k + 1) \<le> S ! i" using inc i by (intro strict_nth_mono) simp_all
    with lo khi have v: "v = S ! i" "S ! (?k + 1) = S ! i" by simp_all
    have "?k + 1 = i"
    proof (rule ccontr)
      assume "?k + 1 \<noteq> i"
      with 2 have "?k + 1 < i" by simp
      then have "S ! (?k + 1) < S ! i" using inc i by (intro strict_nth_less) simp_all
      with v(2) show False by simp
    qed
    then have "segmentLine S T ?k v = T ! i"
      using segmentLine_right [OF ki, of T] v by simp
    then show ?thesis using segmentLine_left [of S T i] v(1) by simp
  next
    case 3
    then have "S ! (i + 1) \<le> S ! ?k" using inc k by (intro strict_nth_mono) simp_all
    with hi klo have v: "v = S ! (i + 1)" "S ! ?k = S ! (i + 1)" by simp_all
    have "?k = i + 1"
    proof (rule ccontr)
      assume "?k \<noteq> i + 1"
      with 3 have "i + 1 < ?k" by simp
      then have "S ! (i + 1) < S ! ?k" using inc k by (intro strict_nth_less) simp_all
      with v(2) show False by simp
    qed
    then have "segmentLine S T ?k v = T ! (i + 1)"
      using segmentLine_left [of S T ?k] v by simp
    then show ?thesis using segmentLine_right [OF ii, of T] v(1) by simp
  qed
  then show ?thesis by (simp add: interp_segment)
qed

lemma interp_in_range:
  assumes len: "2 \<le> length S" and same: "length T = length S"
    and inc: "sorted_wrt (<) S" and incT: "sorted_wrt (<) T"
    and lo: "S ! 0 \<le> v" and hi: "v \<le> S ! (length S - 1)"
  shows "T ! 0 \<le> interp v S T \<and> interp v S T \<le> T ! (length T - 1)"
proof -
  let ?k = "segmentOf v S"
  have k: "?k + 1 < length S" using len by (rule segmentOf_range)
  have klo: "S ! ?k \<le> v" using len lo inc by (rule segmentOf_lower)
  have khi: "v \<le> S ! (?k + 1)" using len hi by (rule segmentOf_upper)
  have ki: "S ! ?k < S ! (?k + 1)" using inc k by (intro strict_nth_less) simp_all
  have ti: "T ! ?k \<le> T ! (?k + 1)" using incT k same by (intro strict_nth_mono) simp_all
  have mid: "T ! ?k \<le> segmentLine S T ?k v \<and> segmentLine S T ?k v \<le> T ! (?k + 1)"
    using ki ti klo khi by (rule segmentLine_between)
  have "T ! 0 \<le> T ! ?k" using incT k same by (intro strict_nth_mono) simp_all
  moreover have "T ! (?k + 1) \<le> T ! (length T - 1)"
    using incT k same by (intro strict_nth_mono) simp_all
  ultimately show ?thesis using mid by (simp add: interp_segment)
qed

lemma interp_below:
  assumes len: "2 \<le> length S" and same: "length T = length S"
    and inc: "sorted_wrt (<) S" and incT: "sorted_wrt (<) T" and lo: "v < S ! 0"
  shows "interp v S T = segmentLine S T 0 v \<and> interp v S T < T ! 0"
proof -
  have seg: "segmentOf v S = 0" using len inc lo by (rule segmentOf_below)
  have s: "S ! 0 < S ! (0 + 1)" using inc len by (intro strict_nth_less) simp_all
  have t: "T ! 0 < T ! (0 + 1)" using incT len same by (intro strict_nth_less) simp_all
  have "segmentLine S T 0 v < T ! 0" using s t lo by (rule segmentLine_below)
  with seg show ?thesis by (simp add: interp_segment)
qed

lemma interp_above:
  assumes len: "2 \<le> length S" and same: "length T = length S"
    and inc: "sorted_wrt (<) S" and incT: "sorted_wrt (<) T" and hi: "S ! (length S - 1) < v"
  shows "interp v S T = segmentLine S T (length S - 2) v \<and> T ! (length T - 1) < interp v S T"
proof -
  have seg: "segmentOf v S = length S - 2" using len inc hi by (rule segmentOf_above)
  have n: "length S - 2 + 1 = length S - 1" using len by simp
  have s: "S ! (length S - 2) < S ! (length S - 2 + 1)"
    using inc len by (intro strict_nth_less) simp_all
  have t: "T ! (length S - 2) < T ! (length S - 2 + 1)"
    using incT len same by (intro strict_nth_less) simp_all
  have "T ! (length S - 2 + 1) < segmentLine S T (length S - 2) v"
    using s t hi n by (intro segmentLine_above) simp_all
  with seg n same show ?thesis by (simp add: interp_segment)
qed

lemma tables_increasing:
  "sorted_wrt (<) X_BREAKS_REAL" "sorted_wrt (<) X_BREAKS_OPTA"
  "sorted_wrt (<) Y_BREAKS_REAL" "sorted_wrt (<) Y_BREAKS_OPTA"
  by (simp_all add: X_BREAKS_REAL_def X_BREAKS_OPTA_def Y_BREAKS_REAL_def Y_BREAKS_OPTA_def)

lemma tables_length:
  "length X_BREAKS_REAL = 7" "length X_BREAKS_OPTA = 7"
  "length Y_BREAKS_REAL = 7" "length Y_BREAKS_OPTA = 7"
  by (simp_all add: X_BREAKS_REAL_def X_BREAKS_OPTA_def Y_BREAKS_REAL_def Y_BREAKS_OPTA_def)

text \<open>
  C6. For either axis, with \<open>S\<close> the source table and \<open>T\<close> the target table of the
  converter: between two adjacent breakpoints \<open>interp\<close> is the line through them; below
  the first breakpoint it is the line of the first pair and above the last one the
  line of the last pair, continued beyond the pair, so the result leaves the range of
  the target table there; for an input within the source table the result is within
  the target table.
\<close>

theorem interp_piecewise_linear:
  assumes "(S, T) = (X_BREAKS_REAL, X_BREAKS_OPTA) \<or> (S, T) = (Y_BREAKS_REAL, Y_BREAKS_OPTA)"
  shows
    "(\<forall>i v. i + 1 < length S \<and> S ! i \<le> v \<and> v \<le> S ! (i + 1) \<longrightarrow>
        interp v S T =
          T ! i + (v - S ! i) / (S ! (i + 1) - S ! i) * (T ! (i + 1) - T ! i))
     \<and> (\<forall>v. v < S ! 0 \<longrightarrow>
          interp v S T = T ! 0 + (v - S ! 0) / (S ! 1 - S ! 0) * (T ! 1 - T ! 0)
          \<and> interp v S T < T ! 0)
     \<and> (\<forall>v. S ! 6 < v \<longrightarrow>
          interp v S T = T ! 5 + (v - S ! 5) / (S ! 6 - S ! 5) * (T ! 6 - T ! 5)
          \<and> T ! 6 < interp v S T)
     \<and> (\<forall>v. S ! 0 \<le> v \<and> v \<le> S ! 6 \<longrightarrow> T ! 0 \<le> interp v S T \<and> interp v S T \<le> T ! 6)"
proof -
  from assms have len: "length S = 7" "length T = 7"
    and inc: "sorted_wrt (<) S" "sorted_wrt (<) T"
    by (auto simp add: tables_length tables_increasing)
  have len2: "2 \<le> length S" and same: "length T = length S" using len by simp_all
  show ?thesis
  proof (intro conjI allI impI)
    fix i v assume "i + 1 < length S \<and> S ! i \<le> v \<and> v \<le> S ! (i + 1)"
    then have "interp v S T = segmentLine S T i v"
      using len2 inc(1) by (intro interp_on_segment) simp_all
    then show "interp v S T = T ! i + (v - S ! i) / (S ! (i + 1) - S ! i) * (T ! (i + 1) - T ! i)"
      by (simp add: segmentLine_def)
  next
    fix v assume "v < S ! 0"
    then have b: "interp v S T = segmentLine S T 0 v \<and> interp v S T < T ! 0"
      using len2 same inc by (intro interp_below) simp_all
    from b show "interp v S T = T ! 0 + (v - S ! 0) / (S ! 1 - S ! 0) * (T ! 1 - T ! 0)"
      by (simp add: segmentLine_def)
    from b show "interp v S T < T ! 0" by simp
  next
    fix v assume "S ! 6 < v"
    then have a: "interp v S T = segmentLine S T (length S - 2) v
        \<and> T ! (length T - 1) < interp v S T"
      using len2 same inc len by (intro interp_above) simp_all
    from a len show "interp v S T = T ! 5 + (v - S ! 5) / (S ! 6 - S ! 5) * (T ! 6 - T ! 5)"
      by (simp add: segmentLine_def)
    from a len show "T ! 6 < interp v S T" by simp
  next
    fix v assume "S ! 0 \<le> v \<and> v \<le> S ! 6"
    then have r: "T ! 0 \<le> interp v S T \<and> interp v S T \<le> T ! (length T - 1)"
      using len2 same inc len by (intro interp_in_range) simp_all
    from r show "T ! 0 \<le> interp v S T" by simp
    from r len show "interp v S T \<le> T ! 6" by simp
  qed
qed

text \<open>
  On the x axis: 8 lies between the breakpoints 5.5 and 11 and is mapped on the line
  from 5.8 to 11.5; \<open>-1\<close> lies below the table and 60 above it, and both are mapped
  outside \<open>[0, 50]\<close>; 52.5, the last breakpoint, is mapped to 50.
\<close>

theorem interp_piecewise_linear_witness:
  "X_BREAKS_REAL ! 1 \<le> 8 \<and> 8 \<le> X_BREAKS_REAL ! 2
   \<and> interp 8 X_BREAKS_REAL X_BREAKS_OPTA = 923 / 110
   \<and> - 1 < X_BREAKS_REAL ! 0
   \<and> interp (- 1) X_BREAKS_REAL X_BREAKS_OPTA = - (58 / 55)
   \<and> X_BREAKS_REAL ! 6 < 60
   \<and> interp 60 X_BREAKS_REAL X_BREAKS_OPTA = 3500 / 61
   \<and> X_BREAKS_REAL ! 0 \<le> 52.5 \<and> 52.5 \<le> X_BREAKS_REAL ! 6
   \<and> interp 52.5 X_BREAKS_REAL X_BREAKS_OPTA = 50"
proof -
  note t = interp_piecewise_linear [of X_BREAKS_REAL X_BREAKS_OPTA, simplified]
  have a: "interp 8 X_BREAKS_REAL X_BREAKS_OPTA = 923 / 110"
    using t [THEN conjunct1, rule_format, of 1 8]
    by (simp add: X_BREAKS_REAL_def X_BREAKS_OPTA_def)
  have b: "interp (- 1) X_BREAKS_REAL X_BREAKS_OPTA = - (58 / 55)"
    using t [THEN conjunct2, THEN conjunct1, rule_format, of "- 1"]
    by (simp add: X_BREAKS_REAL_def X_BREAKS_OPTA_def)
  have c: "interp 60 X_BREAKS_REAL X_BREAKS_OPTA = 3500 / 61"
    using t [THEN conjunct2, THEN conjunct2, THEN conjunct1, rule_format, of 60]
    by (simp add: X_BREAKS_REAL_def X_BREAKS_OPTA_def)
  have d: "interp 52.5 X_BREAKS_REAL X_BREAKS_OPTA = 50"
    using t [THEN conjunct1, rule_format, of 5 "52.5"]
    by (simp add: X_BREAKS_REAL_def X_BREAKS_OPTA_def)
  from a b c d show ?thesis by (simp add: X_BREAKS_REAL_def)
qed

lemma interp_minus_one:
  "interp (- 1) X_BREAKS_REAL X_BREAKS_OPTA = - (58 / 55)"
proof -
  have "findInterval (- 1) X_BREAKS_REAL 0 = 0"
    by (subst findInterval.simps) (simp add: X_BREAKS_REAL_def)
  then show ?thesis
    by (simp add: interp_def) (simp add: X_BREAKS_REAL_def X_BREAKS_OPTA_def)
qed

text \<open>
  The input \<open>-1\<close>, one unit below the x table (a point one metre behind the goal line,
  \<open>x = -53.5\<close>), is mapped below 0, the first target breakpoint: the result of the first
  segment's line, not a value of the table's range.
\<close>

theorem interp_below_table_counterexample:
  "interp (- 1) X_BREAKS_REAL X_BREAKS_OPTA = - (58 / 55)
   \<and> convertWithMirror (- 1) X_BREAKS_REAL X_BREAKS_OPTA REAL_X_MID = - (58 / 55)
   \<and> - (58 / 55) < X_BREAKS_OPTA ! 0
   \<and> fst (realToOpta (- 53.5) 0) = - 1.05"
proof -
  have cw: "convertWithMirror (- 1) X_BREAKS_REAL X_BREAKS_OPTA REAL_X_MID = - (58 / 55)"
    by (simp add: convertWithMirror_def interp_minus_one REAL_X_MID_def)
  have norm: "(- 53.5 * REAL_X_MID / PITCH_X_HALF) + REAL_X_MID = - 1"
    by (simp add: REAL_X_MID_def PITCH_X_HALF_def PITCH_LENGTH_def)
  have rnd: "mathRound (- (58 / 55) * 100) = - 105"
    by (simp add: mathRound_def)
  have out: "fst (realToOpta (- 53.5) 0) = - 1.05"
    unfolding realToOpta_def Let_def fst_conv norm cw rnd by simp
  have below: "- (58 / 55) < X_BREAKS_OPTA ! 0"
    by (simp add: X_BREAKS_OPTA_def)
  from interp_minus_one cw below out show ?thesis by blast
qed

section \<open>Mirror symmetry of the exact converter\<close>

lemma interp_at_last:
  assumes len: "2 \<le> length S" and same: "length T = length S" and inc: "sorted_wrt (<) S"
  shows "interp (S ! (length S - 1)) S T = T ! (length T - 1)"
proof -
  have n: "length S - 2 + 1 = length S - 1" using len by simp
  have lt: "S ! (length S - 2) < S ! (length S - 2 + 1)"
    using inc len by (intro strict_nth_less) simp_all
  have "interp (S ! (length S - 1)) S T = segmentLine S T (length S - 2) (S ! (length S - 1))"
    using len inc lt n by (intro interp_on_segment) simp_all
  also have "\<dots> = T ! (length S - 1)"
    using segmentLine_right [OF lt, of T] n by simp
  finally show ?thesis using same by simp
qed

lemma convertWithMirror_reflect:
  assumes len: "2 \<le> length S" and same: "length T = length S" and inc: "sorted_wrt (<) S"
    and mid: "S ! (length S - 1) = m"
  shows "convertWithMirror (2 * m - v) S T m = 2 * T ! (length T - 1) - convertWithMirror v S T m"
proof -
  consider "m < v" | "v < m" | "v = m" by linarith
  then show ?thesis
  proof cases
    case 1
    then show ?thesis by (simp add: convertWithMirror_def)
  next
    case 2
    then show ?thesis by (simp add: convertWithMirror_def)
  next
    case 3
    have "interp m S T = T ! (length T - 1)"
      using interp_at_last [OF len same inc] mid by simp
    with 3 show ?thesis by (simp add: convertWithMirror_def)
  qed
qed

lemma mathRound_reflect:
  "\<bar>mathRound (a * 100) / 100 + mathRound ((100 - a) * 100) / 100 - 100\<bar> \<le> 1 / 100"
proof -
  define A where "A = a * 100"
  define p where "p = \<lfloor>A + 1 / 2\<rfloor>"
  define q where "q = \<lfloor>(10000 - A) + 1 / 2\<rfloor>"
  have p1: "of_int p \<le> A + 1 / 2" and p2: "A + 1 / 2 < of_int p + 1"
    unfolding p_def by linarith+
  have q1: "of_int q \<le> (10000 - A) + 1 / 2" and q2: "(10000 - A) + 1 / 2 < of_int q + 1"
    unfolding q_def by linarith+
  from p1 q1 have "(of_int (p + q) :: real) \<le> 10001" by simp
  then have up: "p + q \<le> 10001" by linarith
  from p2 q2 have "(9999 :: real) < of_int (p + q)" by simp
  then have lo: "10000 \<le> p + q" by linarith
  have eq: "mathRound (a * 100) / 100 + mathRound ((100 - a) * 100) / 100 - 100
      = (of_int (p + q) - 10000) / 100"
    by (simp add: mathRound_def p_def q_def A_def algebra_simps)
  have "0 \<le> (of_int (p + q) :: real) - 10000" using lo by simp
  moreover have "(of_int (p + q) :: real) - 10000 \<le> 1" using up by simp
  ultimately show ?thesis unfolding eq by simp
qed

text \<open>
  The exact computation is symmetric up to one hundredth: for every point \<open>(x, y)\<close>,
  each coordinate of the image of \<open>(-x, -y)\<close> differs from 100 minus the coordinate of
  the image of \<open>(x, y)\<close> by at most 0.01, and by exactly 0.01 where the unrounded
  value lies halfway between two hundredths (at \<open>x = 47.6875\<close> the two images have
  the abscissas 94.93 and 5.08). This is a statement about the exact computation
  only: in IEEE 754 doubles the difference of the results of the source at such a
  point is not the double nearest to 0.01, so that a comparison of the results of
  the source with the tolerance 0.01 is outside of what this model decides.
\<close>

lemma realToOpta_exact_mirror_symmetry:
  "\<bar>fst (realToOpta (- x) (- y)) - (100 - fst (realToOpta x y))\<bar> \<le> 0.01
   \<and> \<bar>snd (realToOpta (- x) (- y)) - (100 - snd (realToOpta x y))\<bar> \<le> 0.01"
proof -
  define nx where "nx = (x * REAL_X_MID / PITCH_X_HALF) + REAL_X_MID"
  define ny where "ny = (y * REAL_Y_MID / PITCH_Y_HALF) + REAL_Y_MID"
  define cx where "cx = convertWithMirror nx X_BREAKS_REAL X_BREAKS_OPTA REAL_X_MID"
  define cy where "cy = convertWithMirror ny Y_BREAKS_REAL Y_BREAKS_OPTA REAL_Y_MID"
  have nx': "(- x * REAL_X_MID / PITCH_X_HALF) + REAL_X_MID = 2 * REAL_X_MID - nx"
    by (simp add: nx_def)
  have ny': "(- y * REAL_Y_MID / PITCH_Y_HALF) + REAL_Y_MID = 2 * REAL_Y_MID - ny"
    by (simp add: ny_def)
  have lastX: "X_BREAKS_REAL ! (length X_BREAKS_REAL - 1) = REAL_X_MID"
    by (simp add: X_BREAKS_REAL_def REAL_X_MID_def)
  have lastY: "Y_BREAKS_REAL ! (length Y_BREAKS_REAL - 1) = REAL_Y_MID"
    by (simp add: Y_BREAKS_REAL_def REAL_Y_MID_def)
  have topX: "X_BREAKS_OPTA ! 6 = 50"
    by (simp add: X_BREAKS_OPTA_def)
  have topY: "Y_BREAKS_OPTA ! 6 = 50"
    by (simp add: Y_BREAKS_OPTA_def)
  have mx: "convertWithMirror (2 * REAL_X_MID - nx) X_BREAKS_REAL X_BREAKS_OPTA REAL_X_MID = 100 - cx"
    using convertWithMirror_reflect [OF _ _ tables_increasing(1) lastX, of X_BREAKS_OPTA nx]
    by (simp add: tables_length topX cx_def)
  have my: "convertWithMirror (2 * REAL_Y_MID - ny) Y_BREAKS_REAL Y_BREAKS_OPTA REAL_Y_MID = 100 - cy"
    using convertWithMirror_reflect [OF _ _ tables_increasing(3) lastY, of Y_BREAKS_OPTA ny]
    by (simp add: tables_length topY cy_def)
  have fx: "fst (realToOpta x y) = mathRound (cx * 100) / 100"
    and fy: "snd (realToOpta x y) = mathRound (cy * 100) / 100"
    by (simp_all add: realToOpta_def Let_def cx_def cy_def nx_def ny_def)
  have gx: "fst (realToOpta (- x) (- y)) = mathRound ((100 - cx) * 100) / 100"
    and gy: "snd (realToOpta (- x) (- y)) = mathRound ((100 - cy) * 100) / 100"
    unfolding realToOpta_def Let_def fst_conv snd_conv nx' ny' mx my by simp_all
  have "\<bar>fst (realToOpta (- x) (- y)) - (100 - fst (realToOpta x y))\<bar> \<le> 1 / 100"
    using mathRound_reflect [of cx] unfolding fx gx by (simp add: algebra_simps)
  moreover have "\<bar>snd (realToOpta (- x) (- y)) - (100 - snd (realToOpta x y))\<bar> \<le> 1 / 100"
    using mathRound_reflect [of cy] unfolding fy gy by (simp add: algebra_simps)
  ultimately show ?thesis by simp
qed

text \<open>
  Two points whose unrounded abscissa lies halfway between two hundredths: in exact
  arithmetic the images of \<open>x = -47.6875\<close> and \<open>x = 47.6875\<close> are 5.08 and 94.93, which
  miss the reflection by exactly 0.01, and the image of \<open>x = -50.4375\<close> is 2.18.
\<close>

lemma interp_near_goal_line:
  "interp (77 / 16) X_BREAKS_REAL X_BREAKS_OPTA = 203 / 40"
proof -
  have "findInterval (77 / 16) X_BREAKS_REAL 0 = 0"
    by (subst findInterval.simps) (simp add: X_BREAKS_REAL_def)
  then show ?thesis
    by (simp add: interp_def) (simp add: X_BREAKS_REAL_def X_BREAKS_OPTA_def)
qed

lemma realToOpta_halfway:
  "fst (realToOpta (- 47.6875) 0) = 5.08" "fst (realToOpta 47.6875 0) = 94.93"
proof -
  have lo: "(- 47.6875 * REAL_X_MID / PITCH_X_HALF) + REAL_X_MID = 77 / 16"
    by (simp add: REAL_X_MID_def PITCH_X_HALF_def PITCH_LENGTH_def)
  have hi: "(47.6875 * REAL_X_MID / PITCH_X_HALF) + REAL_X_MID = 1603 / 16"
    by (simp add: REAL_X_MID_def PITCH_X_HALF_def PITCH_LENGTH_def)
  have cl: "convertWithMirror (77 / 16) X_BREAKS_REAL X_BREAKS_OPTA REAL_X_MID = 203 / 40"
    by (simp add: convertWithMirror_def interp_near_goal_line REAL_X_MID_def)
  have adj: "2 * REAL_X_MID - 1603 / 16 = 77 / 16" by (simp add: REAL_X_MID_def)
  have ch: "convertWithMirror (1603 / 16) X_BREAKS_REAL X_BREAKS_OPTA REAL_X_MID = 3797 / 40"
  proof -
    have mir: "(1603 / 16 > REAL_X_MID) = True" by (simp add: REAL_X_MID_def)
    show ?thesis
      unfolding convertWithMirror_def Let_def mir if_True adj interp_near_goal_line
      by (simp add: X_BREAKS_OPTA_def)
  qed
  have rl: "mathRound (203 / 40 * 100) = 508" by (simp add: mathRound_def)
  have rh: "mathRound (3797 / 40 * 100) = 9493" by (simp add: mathRound_def)
  show "fst (realToOpta (- 47.6875) 0) = 5.08"
    unfolding realToOpta_def Let_def fst_conv lo cl rl by simp
  show "fst (realToOpta 47.6875 0) = 94.93"
    unfolding realToOpta_def Let_def fst_conv hi ch rh by simp
qed

lemma realToOpta_halfway_apart:
  "\<bar>fst (realToOpta (- 47.6875) 0) - (100 - fst (realToOpta 47.6875 0))\<bar> = 0.01"
  unfolding realToOpta_halfway by simp

lemma realToOpta_near_goal_line: "fst (realToOpta (- 50.4375) 0) = 2.18"
proof -
  have fi: "findInterval (33 / 16) X_BREAKS_REAL 0 = 0"
    by (subst findInterval.simps) (simp add: X_BREAKS_REAL_def)
  have ip: "interp (33 / 16) X_BREAKS_REAL X_BREAKS_OPTA = 87 / 40"
    using fi by (simp add: interp_def) (simp add: X_BREAKS_REAL_def X_BREAKS_OPTA_def)
  have norm: "(- 50.4375 * REAL_X_MID / PITCH_X_HALF) + REAL_X_MID = 33 / 16"
    by (simp add: REAL_X_MID_def PITCH_X_HALF_def PITCH_LENGTH_def)
  have cw: "convertWithMirror (33 / 16) X_BREAKS_REAL X_BREAKS_OPTA REAL_X_MID = 87 / 40"
    by (simp add: convertWithMirror_def ip REAL_X_MID_def)
  have rnd: "mathRound (87 / 40 * 100) = 218" by (simp add: mathRound_def)
  show ?thesis
    unfolding realToOpta_def Let_def fst_conv norm cw rnd by simp
qed

section \<open>Converting the tracking positions at ingestion\<close>

lemma realToOptaCells_defined:
  "(\<forall>s. x \<noteq> JStr s) \<Longrightarrow> (\<forall>s. y \<noteq> JStr s) \<Longrightarrow> \<exists>c. realToOptaCells x y = Inr c"
  by (cases x; cases y) (simp_all add: realToOptaCells_def bindE_def)

lemma realToOptaCells_numbers:
  "realToOptaCells (JNum x) (JNum y) = Inr (JNum (fst (realToOpta x y)), JNum (snd (realToOpta x y)))"
  by (simp add: realToOptaCells_def bindE_def)

lemma convertRows_length:
  "convertRows xs ys rows = Inr cs \<Longrightarrow> length cs = length rows"
proof (induction rows arbitrary: cs)
  case Nil
  then show ?case by simp
next
  case (Cons i rows)
  then show ?case
    by (auto simp add: bindE_def split: sum.splits)
qed

lemma convertRows_nth:
  "convertRows xs ys rows = Inr cs \<Longrightarrow> k < length rows \<Longrightarrow>
   realToOptaCells (colAt xs (int (rows ! k))) (colAt ys (int (rows ! k))) = Inr (cs ! k)"
proof (induction rows arbitrary: cs k)
  case Nil
  then show ?case by simp
next
  case (Cons i rows)
  from Cons.prems(1) obtain c cs' where c: "realToOptaCells (colAt xs (int i)) (colAt ys (int i)) = Inr c"
    and cs': "convertRows xs ys rows = Inr cs'" and cs: "cs = c # cs'"
    by (auto simp add: bindE_def split: sum.splits)
  show ?case
  proof (cases k)
    case 0
    with c cs show ?thesis by simp
  next
    case (Suc j)
    with Cons.prems(2) have "j < length rows" by simp
    with Cons.IH [OF cs'] Suc cs show ?thesis by simp
  qed
qed

lemma convertRows_defined:
  "(\<And>i. i \<in> set rows \<Longrightarrow> \<exists>c. realToOptaCells (colAt xs (int i)) (colAt ys (int i)) = Inr c) \<Longrightarrow>
   \<exists>cs. convertRows xs ys rows = Inr cs"
proof (induction rows)
  case Nil
  then show ?case by simp
next
  case (Cons i rows)
  from Cons.prems [of i] obtain c where "realToOptaCells (colAt xs (int i)) (colAt ys (int i)) = Inr c"
    by auto
  moreover from Cons.IH Cons.prems obtain cs where "convertRows xs ys rows = Inr cs"
    by auto
  ultimately show ?case by (simp add: bindE_def)
qed

lemma colAt_not_string:
  "(\<forall>v \<in> set col. \<forall>s. v \<noteq> JStr s) \<Longrightarrow> colAt col i \<noteq> JStr s"
  by (auto simp add: colAt_def)

lemma realToOptaArrays_defined:
  assumes "\<forall>v \<in> set xs \<union> set ys. \<forall>s. v \<noteq> JStr s"
  shows "\<exists>ox oy. realToOptaArrays xs ys = Inr (ox, oy) \<and> length ox = length xs
           \<and> length oy = max (length xs) (length ys)
           \<and> (\<forall>i < length xs.
                 realToOptaCells (xs ! i) (colAt ys (int i)) = Inr (ox ! i, oy ! i))"
proof -
  have "\<exists>cs. convertRows xs ys [0 ..< length xs] = Inr cs"
  proof (rule convertRows_defined)
    fix i
    have "\<forall>s. colAt xs (int i) \<noteq> JStr s" "\<forall>s. colAt ys (int i) \<noteq> JStr s"
      using assms by (auto simp add: colAt_not_string)
    then show "\<exists>c. realToOptaCells (colAt xs (int i)) (colAt ys (int i)) = Inr c"
      by (rule realToOptaCells_defined)
  qed
  then obtain cs where cs: "convertRows xs ys [0 ..< length xs] = Inr cs" by auto
  then have len: "length cs = length xs" using convertRows_length by fastforce
  have cells: "realToOptaCells (xs ! i) (colAt ys (int i)) = Inr (cs ! i)" if "i < length xs" for i
    using convertRows_nth [OF cs, of i] that by (simp add: colAt_def)
  let ?ox = "map fst cs"
  let ?oy = "map snd cs @ replicate (length ys - length xs) JUndefined"
  have "realToOptaArrays xs ys = Inr (?ox, ?oy)"
    by (simp add: realToOptaArrays_def cs bindE_def)
  moreover have "length ?ox = length xs" using len by simp
  moreover have "length ?oy = max (length xs) (length ys)" using len by simp
  moreover have "\<forall>i < length xs. realToOptaCells (xs ! i) (colAt ys (int i)) = Inr (?ox ! i, ?oy ! i)"
    using cells len by (simp add: nth_append)
  ultimately show ?thesis by blast
qed

lemma convertTrackingToOpta_shape:
  assumes "convertTrackingToOpta d = Inr d'"
  shows "numRows d' = numRows d \<and> fieldNames d' = fieldNames d
         \<and> (\<forall>f. f \<noteq> ''pos_x'' \<and> f \<noteq> ''pos_y'' \<longrightarrow> columns d' f = columns d f)"
  using assms
  by (auto simp add: convertTrackingToOpta_def bindE_def split: option.splits sum.splits prod.splits)

text \<open>
  C10. A dataset that lacks \<open>pos_x\<close> or \<open>pos_y\<close> is returned as it is. Whenever the
  conversion returns a dataset, \<open>numRows\<close>, \<open>fieldNames\<close> and every column other than
  \<open>pos_x\<close> and \<open>pos_y\<close> are those of the input. When both columns are present and hold
  no string, the conversion does return: the dataset with \<open>pos_x\<close> and \<open>pos_y\<close>
  replaced, where entry \<open>i\<close> of the new columns is \<open>realToOpta\<close> of entry \<open>i\<close> of the old
  ones.
\<close>

theorem convertTrackingToOpta_frame:
  "(columns d ''pos_x'' = None \<or> columns d ''pos_y'' = None \<longrightarrow> convertTrackingToOpta d = Inr d)
   \<and> (\<forall>d'. convertTrackingToOpta d = Inr d' \<longrightarrow>
         numRows d' = numRows d \<and> fieldNames d' = fieldNames d
         \<and> (\<forall>f. f \<noteq> ''pos_x'' \<and> f \<noteq> ''pos_y'' \<longrightarrow> columns d' f = columns d f))
   \<and> (\<forall>xs ys. columns d ''pos_x'' = Some xs \<and> columns d ''pos_y'' = Some ys
         \<and> (\<forall>v \<in> set xs \<union> set ys. \<forall>s. v \<noteq> JStr s) \<longrightarrow>
         (\<exists>ox oy.
            convertTrackingToOpta d =
              Inr (d\<lparr>columns := (columns d)(''pos_x'' \<mapsto> ox, ''pos_y'' \<mapsto> oy)\<rparr>)
            \<and> length ox = length xs \<and> length oy = max (length xs) (length ys)
            \<and> (\<forall>i < length xs.
                  realToOptaCells (xs ! i) (colAt ys (int i)) = Inr (ox ! i, oy ! i))
            \<and> (\<forall>i x y. i < length xs \<and> xs ! i = JNum x \<and> colAt ys (int i) = JNum y \<longrightarrow>
                  ox ! i = JNum (fst (realToOpta x y)) \<and> oy ! i = JNum (snd (realToOpta x y)))))"
proof (intro conjI allI impI)
  assume "columns d ''pos_x'' = None \<or> columns d ''pos_y'' = None"
  then show "convertTrackingToOpta d = Inr d"
    by (auto simp add: convertTrackingToOpta_def split: option.splits)
next
  fix d' assume r: "convertTrackingToOpta d = Inr d'"
  from convertTrackingToOpta_shape [OF r] show "numRows d' = numRows d" by simp
  from convertTrackingToOpta_shape [OF r] show "fieldNames d' = fieldNames d" by simp
  fix f assume "f \<noteq> ''pos_x'' \<and> f \<noteq> ''pos_y''"
  with convertTrackingToOpta_shape [OF r] show "columns d' f = columns d f" by simp
next
  fix xs ys
  assume a: "columns d ''pos_x'' = Some xs \<and> columns d ''pos_y'' = Some ys
      \<and> (\<forall>v \<in> set xs \<union> set ys. \<forall>s. v \<noteq> JStr s)"
  then obtain ox oy where arr: "realToOptaArrays xs ys = Inr (ox, oy)"
    and lx: "length ox = length xs" and ly: "length oy = max (length xs) (length ys)"
    and cells: "\<forall>i < length xs. realToOptaCells (xs ! i) (colAt ys (int i)) = Inr (ox ! i, oy ! i)"
    using realToOptaArrays_defined [of xs ys] by blast
  have conv: "convertTrackingToOpta d =
      Inr (d\<lparr>columns := (columns d)(''pos_x'' \<mapsto> ox, ''pos_y'' \<mapsto> oy)\<rparr>)"
    using a arr by (simp add: convertTrackingToOpta_def bindE_def)
  have nums: "\<forall>i x y. i < length xs \<and> xs ! i = JNum x \<and> colAt ys (int i) = JNum y \<longrightarrow>
      ox ! i = JNum (fst (realToOpta x y)) \<and> oy ! i = JNum (snd (realToOpta x y))"
  proof (intro allI impI)
    fix i x y assume h: "i < length xs \<and> xs ! i = JNum x \<and> colAt ys (int i) = JNum y"
    with cells have "realToOptaCells (JNum x) (JNum y) = Inr (ox ! i, oy ! i)" by auto
    then show "ox ! i = JNum (fst (realToOpta x y)) \<and> oy ! i = JNum (snd (realToOpta x y))"
      by (simp add: realToOptaCells_numbers)
  qed
  from conv lx ly cells nums
  show "\<exists>ox oy.
      convertTrackingToOpta d =
        Inr (d\<lparr>columns := (columns d)(''pos_x'' \<mapsto> ox, ''pos_y'' \<mapsto> oy)\<rparr>)
      \<and> length ox = length xs \<and> length oy = max (length xs) (length ys)
      \<and> (\<forall>i < length xs.
            realToOptaCells (xs ! i) (colAt ys (int i)) = Inr (ox ! i, oy ! i))
      \<and> (\<forall>i x y. i < length xs \<and> xs ! i = JNum x \<and> colAt ys (int i) = JNum y \<longrightarrow>
            ox ! i = JNum (fst (realToOpta x y)) \<and> oy ! i = JNum (snd (realToOpta x y)))"
    by blast
qed
lemma convertWithMirror_mid:
  "convertWithMirror REAL_X_MID X_BREAKS_REAL X_BREAKS_OPTA REAL_X_MID = 50"
  "convertWithMirror REAL_Y_MID Y_BREAKS_REAL Y_BREAKS_OPTA REAL_Y_MID = 50"
proof -
  have "interp (X_BREAKS_REAL ! (length X_BREAKS_REAL - 1)) X_BREAKS_REAL X_BREAKS_OPTA
      = X_BREAKS_OPTA ! (length X_BREAKS_OPTA - 1)"
    by (rule interp_at_last) (simp_all add: tables_length tables_increasing)
  then have "interp REAL_X_MID X_BREAKS_REAL X_BREAKS_OPTA = 50"
    by (simp add: X_BREAKS_REAL_def X_BREAKS_OPTA_def REAL_X_MID_def)
  then show "convertWithMirror REAL_X_MID X_BREAKS_REAL X_BREAKS_OPTA REAL_X_MID = 50"
    by (simp add: convertWithMirror_def)
  have "interp (Y_BREAKS_REAL ! (length Y_BREAKS_REAL - 1)) Y_BREAKS_REAL Y_BREAKS_OPTA
      = Y_BREAKS_OPTA ! (length Y_BREAKS_OPTA - 1)"
    by (rule interp_at_last) (simp_all add: tables_length tables_increasing)
  then have "interp REAL_Y_MID Y_BREAKS_REAL Y_BREAKS_OPTA = 50"
    by (simp add: Y_BREAKS_REAL_def Y_BREAKS_OPTA_def REAL_Y_MID_def)
  then show "convertWithMirror REAL_Y_MID Y_BREAKS_REAL Y_BREAKS_OPTA REAL_Y_MID = 50"
    by (simp add: convertWithMirror_def)
qed

lemma realToOpta_centre: "realToOpta 0 0 = (50, 50)"
  by (simp add: realToOpta_def convertWithMirror_mid mathRound_def)

lemma realToOpta_behind_goal: "realToOpta (- 53.5) 0 = (- 1.05, 50)"
proof -
  have norm: "(- 53.5 * REAL_X_MID / PITCH_X_HALF) + REAL_X_MID = - 1"
    by (simp add: REAL_X_MID_def PITCH_X_HALF_def PITCH_LENGTH_def)
  have cw: "convertWithMirror (- 1) X_BREAKS_REAL X_BREAKS_OPTA REAL_X_MID = - (58 / 55)"
    by (simp add: convertWithMirror_def interp_minus_one REAL_X_MID_def)
  have rnd: "mathRound (- (58 / 55) * 100) = - 105"
    by (simp add: mathRound_def)
  have "fst (realToOpta (- 53.5) 0) = - 1.05"
    unfolding realToOpta_def Let_def fst_conv norm cw rnd by simp
  moreover have "snd (realToOpta (- 53.5) 0) = 50"
    by (simp add: realToOpta_def convertWithMirror_mid mathRound_def)
  ultimately show ?thesis by (simp add: prod_eq_iff)
qed

lemma positionTracking_converted:
  "realToOptaArrays [JNum (- 53.5), JNum 0] [JNum 0, JNull]
     = Inr ([JNum (- 1.05), JNum 50], [JNum 50, JNum 50])"
proof -
  have rows: "[0 ..< length [JNum (- 53.5), JNum 0]] = [0, 1]"
    by (simp add: upt_rec)
  have a: "realToOptaCells (JNum (- 53.5)) (JNum 0) = Inr (JNum (- 1.05), JNum 50)"
    using realToOpta_behind_goal by (simp add: realToOptaCells_def bindE_def)
  have b: "realToOptaCells (JNum 0) JNull = Inr (JNum 50, JNum 50)"
    using realToOpta_centre by (simp add: realToOptaCells_def bindE_def)
  show ?thesis
    unfolding realToOptaArrays_def rows
    using a b by (simp add: bindE_def colAt_def)
qed

text \<open>
  The point one metre behind the goal line is mapped to \<open>x = -1.05\<close>, the centre (and
  the row whose \<open>pos_y\<close> is null) to 50; \<open>period_id\<close> is untouched. The example tracking
  dataset has no position columns and is returned as it is.
\<close>

theorem convertTrackingToOpta_frame_witness:
  "columns positionTracking ''pos_x'' = Some [JNum (- 53.5), JNum 0]
   \<and> columns positionTracking ''pos_y'' = Some [JNum 0, JNull]
   \<and> convertTrackingToOpta positionTracking =
       Inr \<lparr>columns = [''period_id'' \<mapsto> [JNum 1, JNum 1],
                       ''pos_x'' \<mapsto> [JNum (- 1.05), JNum 50],
                       ''pos_y'' \<mapsto> [JNum 50, JNum 50]],
            numRows = 2,
            fieldNames = [''period_id'', ''pos_x'', ''pos_y'']\<rparr>
   \<and> columns exampleTracking ''pos_x'' = None
   \<and> convertTrackingToOpta exampleTracking = Inr exampleTracking"
proof -
  have cols: "columns positionTracking ''pos_x'' = Some [JNum (- 53.5), JNum 0]"
    "columns positionTracking ''pos_y'' = Some [JNum 0, JNull]"
    by (simp_all add: positionTracking_def)
  have none: "columns exampleTracking ''pos_x'' = None"
    by (simp add: exampleTracking_def)
  have conv: "convertTrackingToOpta positionTracking =
      Inr (positionTracking\<lparr>columns := (columns positionTracking)
             (''pos_x'' \<mapsto> [JNum (- 1.05), JNum 50], ''pos_y'' \<mapsto> [JNum 50, JNum 50])\<rparr>)"
    by (simp only: convertTrackingToOpta_def cols option.case prod.case
        positionTracking_converted bindE_def sum.case)
  have st: "positionTracking\<lparr>columns := (columns positionTracking)
             (''pos_x'' \<mapsto> [JNum (- 1.05), JNum 50], ''pos_y'' \<mapsto> [JNum 50, JNum 50])\<rparr>
      = \<lparr>columns = [''period_id'' \<mapsto> [JNum 1, JNum 1],
                    ''pos_x'' \<mapsto> [JNum (- 1.05), JNum 50],
                    ''pos_y'' \<mapsto> [JNum 50, JNum 50]],
         numRows = 2,
         fieldNames = [''period_id'', ''pos_x'', ''pos_y'']\<rparr>"
    by (simp add: positionTracking_def)
  have unchanged: "convertTrackingToOpta exampleTracking = Inr exampleTracking"
    using convertTrackingToOpta_frame [of exampleTracking, THEN conjunct1] none by simp
  note frame = convertTrackingToOpta_frame [of positionTracking, THEN conjunct2, THEN conjunct1,
      rule_format, OF conv]
  from cols none conv st unchanged frame show ?thesis by simp
qed

section \<open>Filtering the events at ingestion\<close>

lemma filterColumns_present:
  "\<forall>f \<in> set names. cols f \<noteq> None \<Longrightarrow>
   filterColumns cols valid acc names =
     Inr (\<lambda>f. if f \<in> set names
               then map_option (\<lambda>col. map (\<lambda>i. colAt col (int i)) valid) (cols f)
               else acc f)"
proof (induction names arbitrary: acc)
  case Nil
  then show ?case by simp
next
  case (Cons name names)
  from Cons.prems obtain col where col: "cols name = Some col" by auto
  from Cons.prems have rest: "\<forall>f \<in> set names. cols f \<noteq> None" by simp
  have "filterColumns cols valid acc (name # names) =
      filterColumns cols valid (acc(name \<mapsto> map (\<lambda>i. colAt col (int i)) valid)) names"
    by (simp add: col)
  also have "\<dots> = Inr (\<lambda>f. if f \<in> set names
               then map_option (\<lambda>col. map (\<lambda>i. colAt col (int i)) valid) (cols f)
               else (acc(name \<mapsto> map (\<lambda>i. colAt col (int i)) valid)) f)"
    using rest by (rule Cons.IH)
  also have "\<dots> = Inr (\<lambda>f. if f \<in> set (name # names)
               then map_option (\<lambda>col. map (\<lambda>i. colAt col (int i)) valid) (cols f)
               else acc f)"
    by (auto simp add: fun_eq_iff col)
  finally show ?case .
qed

lemma isValidRow_iff:
  "isValidRow xCol yCol periodCol eventTypeCol i \<longleftrightarrow>
     colAt xCol (int i) \<notin> {JNull, JUndefined, JNaN}
     \<and> colAt yCol (int i) \<notin> {JNull, JUndefined, JNaN}
     \<and> colAt periodCol (int i) \<in> {JNum 1, JNum 2}
     \<and> colAt eventTypeCol (int i) \<in> JNum ` {1, 2, 5, 6, 8, 12, 13, 14, 15, 16, 44, 49}"
proof -
  have p: "(strictEq v (JNum 1) \<or> strictEq v (JNum 2)) \<longleftrightarrow> v \<in> {JNum 1, JNum 2}" for v
    by (auto simp add: strictEq_def)
  have e: "isSyncableEventType v \<longleftrightarrow> v \<in> JNum ` {1, 2, 5, 6, 8, 12, 13, 14, 15, 16, 44, 49}" for v
    by (cases v) (auto simp add: isSyncableEventType_def SYNCABLE_EVENT_TYPES_def)
  show ?thesis
    unfolding isValidRow_def Let_def p e by simp
qed

text \<open>
  C9. For a dataset in which every field name has a column: if one of the columns
  \<open>x\<close>, \<open>y\<close>, \<open>period_id\<close>, \<open>event_type_id\<close> is absent, the dataset is returned as it is;
  otherwise the result keeps the rows, in ascending order of their index, whose \<open>x\<close> and
  \<open>y\<close> are none of null, undefined and NaN, whose \<open>period_id\<close> is 1 or 2 and whose
  \<open>event_type_id\<close> is one of 1, 2, 5, 6, 8, 12, 13, 14, 15, 16, 44, 49: \<open>numRows\<close> is their
  number, \<open>fieldNames\<close> is unchanged, the columns of the result are those of the field
  names, each holding the kept rows' cells of the input column, and so each of length
  \<open>numRows\<close>.
\<close>

theorem filterEventsToSync_keeps_syncable:
  assumes "\<forall>f \<in> set (fieldNames d). columns d f \<noteq> None"
  shows
    "(columns d ''x'' = None \<or> columns d ''y'' = None \<or> columns d ''period_id'' = None
        \<or> columns d ''event_type_id'' = None \<longrightarrow> filterEventsToSync d = Inr d)
     \<and> (\<forall>xCol yCol periodCol eventTypeCol.
           columns d ''x'' = Some xCol \<and> columns d ''y'' = Some yCol
           \<and> columns d ''period_id'' = Some periodCol
           \<and> columns d ''event_type_id'' = Some eventTypeCol \<longrightarrow>
           (\<exists>d' keep.
              filterEventsToSync d = Inr d'
              \<and> keep = filter (\<lambda>i. colAt xCol (int i) \<notin> {JNull, JUndefined, JNaN}
                                 \<and> colAt yCol (int i) \<notin> {JNull, JUndefined, JNaN}
                                 \<and> colAt periodCol (int i) \<in> {JNum 1, JNum 2}
                                 \<and> colAt eventTypeCol (int i)
                                     \<in> JNum ` {1, 2, 5, 6, 8, 12, 13, 14, 15, 16, 44, 49})
                         [0 ..< numRows d]
              \<and> numRows d' = length keep
              \<and> fieldNames d' = fieldNames d
              \<and> dom (columns d') = set (fieldNames d)
              \<and> (\<forall>f col. f \<in> set (fieldNames d) \<and> columns d f = Some col \<longrightarrow>
                    columns d' f = Some (map (\<lambda>i. colAt col (int i)) keep))
              \<and> (\<forall>f col'. columns d' f = Some col' \<longrightarrow> length col' = numRows d')))"
proof (intro conjI allI impI)
  assume "columns d ''x'' = None \<or> columns d ''y'' = None \<or> columns d ''period_id'' = None
      \<or> columns d ''event_type_id'' = None"
  then show "filterEventsToSync d = Inr d"
    by (auto simp add: filterEventsToSync_def split: option.splits)
next
  fix xCol yCol periodCol eventTypeCol
  assume present: "columns d ''x'' = Some xCol \<and> columns d ''y'' = Some yCol
      \<and> columns d ''period_id'' = Some periodCol
      \<and> columns d ''event_type_id'' = Some eventTypeCol"
  define keep where "keep = filter (isValidRow xCol yCol periodCol eventTypeCol) [0 ..< numRows d]"
  define cols' where "cols' = (\<lambda>f. if f \<in> set (fieldNames d)
      then map_option (\<lambda>col. map (\<lambda>i. colAt col (int i)) keep) (columns d f)
      else None)"
  define d' where "d' = \<lparr>columns = cols', numRows = length keep, fieldNames = fieldNames d\<rparr>"
  have fc: "filterColumns (columns d) keep Map.empty (fieldNames d) = Inr cols'"
    using filterColumns_present [OF assms, of keep Map.empty] by (simp add: cols'_def)
  have res: "filterEventsToSync d = Inr d'"
    using present fc by (simp add: filterEventsToSync_def keep_def [symmetric] bindE_def d'_def)
  have keep_eq: "keep = filter (\<lambda>i. colAt xCol (int i) \<notin> {JNull, JUndefined, JNaN}
        \<and> colAt yCol (int i) \<notin> {JNull, JUndefined, JNaN}
        \<and> colAt periodCol (int i) \<in> {JNum 1, JNum 2}
        \<and> colAt eventTypeCol (int i) \<in> JNum ` {1, 2, 5, 6, 8, 12, 13, 14, 15, 16, 44, 49})
      [0 ..< numRows d]"
    unfolding keep_def by (rule filter_cong) (simp_all add: isValidRow_iff)
  have dom: "dom (columns d') = set (fieldNames d)"
    using assms by (auto simp add: d'_def cols'_def split: if_splits)
  have col: "\<forall>f col. f \<in> set (fieldNames d) \<and> columns d f = Some col \<longrightarrow>
      columns d' f = Some (map (\<lambda>i. colAt col (int i)) keep)"
    by (simp add: d'_def cols'_def)
  have len: "\<forall>f col'. columns d' f = Some col' \<longrightarrow> length col' = numRows d'"
    by (auto simp add: d'_def cols'_def split: if_splits)
  have "numRows d' = length keep" "fieldNames d' = fieldNames d"
    by (simp_all add: d'_def)
  with res keep_eq dom col len
  show "\<exists>d' keep.
      filterEventsToSync d = Inr d'
      \<and> keep = filter (\<lambda>i. colAt xCol (int i) \<notin> {JNull, JUndefined, JNaN}
                         \<and> colAt yCol (int i) \<notin> {JNull, JUndefined, JNaN}
                         \<and> colAt periodCol (int i) \<in> {JNum 1, JNum 2}
                         \<and> colAt eventTypeCol (int i)
                             \<in> JNum ` {1, 2, 5, 6, 8, 12, 13, 14, 15, 16, 44, 49})
                 [0 ..< numRows d]
      \<and> numRows d' = length keep
      \<and> fieldNames d' = fieldNames d
      \<and> dom (columns d') = set (fieldNames d)
      \<and> (\<forall>f col. f \<in> set (fieldNames d) \<and> columns d f = Some col \<longrightarrow>
            columns d' f = Some (map (\<lambda>i. colAt col (int i)) keep))
      \<and> (\<forall>f col'. columns d' f = Some col' \<longrightarrow> length col' = numRows d')"
    by blast
qed
lemma rawEvents_filtered:
  "filterEventsToSync rawEvents =
     Inr \<lparr>columns = [''x'' \<mapsto> [JNum 10], ''y'' \<mapsto> [JNum 20], ''period_id'' \<mapsto> [JNum 1],
                     ''event_type_id'' \<mapsto> [JNum 1]],
          numRows = 1,
          fieldNames = [''x'', ''y'', ''period_id'', ''event_type_id'']\<rparr>"
proof -
  have rows: "[0 ..< numRows rawEvents] = [0, 1, 2, 3]"
    by (simp add: rawEvents_def upt_rec)
  have keep:
    "isValidRow [JNum 10, JNull, JNum 30, JNum 40] [JNum 20, JNum 20, JNum 20, JNum 20]
       [JNum 1, JNum 1, JNum 3, JNum 2] [JNum 1, JNum 1, JNum 1, JNum 3] 0"
    "\<not> isValidRow [JNum 10, JNull, JNum 30, JNum 40] [JNum 20, JNum 20, JNum 20, JNum 20]
       [JNum 1, JNum 1, JNum 3, JNum 2] [JNum 1, JNum 1, JNum 1, JNum 3] (Suc 0)"
    "\<not> isValidRow [JNum 10, JNull, JNum 30, JNum 40] [JNum 20, JNum 20, JNum 20, JNum 20]
       [JNum 1, JNum 1, JNum 3, JNum 2] [JNum 1, JNum 1, JNum 1, JNum 3] 2"
    "\<not> isValidRow [JNum 10, JNull, JNum 30, JNum 40] [JNum 20, JNum 20, JNum 20, JNum 20]
       [JNum 1, JNum 1, JNum 3, JNum 2] [JNum 1, JNum 1, JNum 1, JNum 3] 3"
    by (simp_all add: isValidRow_def colAt_def strictEq_def isSyncableEventType_def
        SYNCABLE_EVENT_TYPES_def)
  have cols: "columns rawEvents ''x'' = Some [JNum 10, JNull, JNum 30, JNum 40]"
    "columns rawEvents ''y'' = Some [JNum 20, JNum 20, JNum 20, JNum 20]"
    "columns rawEvents ''period_id'' = Some [JNum 1, JNum 1, JNum 3, JNum 2]"
    "columns rawEvents ''event_type_id'' = Some [JNum 1, JNum 1, JNum 1, JNum 3]"
    "fieldNames rawEvents = [''x'', ''y'', ''period_id'', ''event_type_id'']"
    by (simp_all add: rawEvents_def)
  show ?thesis
    by (simp add: filterEventsToSync_def cols rows keep bindE_def colAt_def)
qed

text \<open>
  Of the four raw events only the first is kept. The example events have no \<open>x\<close>
  column and are returned as they are.
\<close>

theorem filterEventsToSync_keeps_syncable_witness:
  "columns rawEvents ''x'' \<noteq> None \<and> columns rawEvents ''y'' \<noteq> None
   \<and> columns rawEvents ''period_id'' \<noteq> None \<and> columns rawEvents ''event_type_id'' \<noteq> None
   \<and> fieldNames rawEvents = [''x'', ''y'', ''period_id'', ''event_type_id'']
   \<and> filterEventsToSync rawEvents =
       Inr \<lparr>columns = [''x'' \<mapsto> [JNum 10], ''y'' \<mapsto> [JNum 20], ''period_id'' \<mapsto> [JNum 1],
                       ''event_type_id'' \<mapsto> [JNum 1]],
            numRows = 1,
            fieldNames = [''x'', ''y'', ''period_id'', ''event_type_id'']\<rparr>
   \<and> columns exampleEvents ''opta_event_id'' \<noteq> None \<and> columns exampleEvents ''period_id'' \<noteq> None
   \<and> columns exampleEvents ''matched_time'' \<noteq> None
   \<and> fieldNames exampleEvents = [''opta_event_id'', ''period_id'', ''matched_time'']
   \<and> columns exampleEvents ''x'' = None
   \<and> filterEventsToSync exampleEvents = Inr exampleEvents"
proof -
  have inv: "\<forall>f \<in> set (fieldNames exampleEvents). columns exampleEvents f \<noteq> None"
    by (simp add: exampleEvents_def)
  have inv': "\<forall>f \<in> set (fieldNames rawEvents). columns rawEvents f \<noteq> None"
    by (simp add: rawEvents_def)
  have none: "columns exampleEvents ''x'' = None"
    by (simp add: exampleEvents_def)
  have unchanged: "filterEventsToSync exampleEvents = Inr exampleEvents"
    using filterEventsToSync_keeps_syncable [OF inv, THEN conjunct1] none by simp
  note kept = filterEventsToSync_keeps_syncable [OF inv', THEN conjunct2]
  have a: "columns rawEvents ''x'' \<noteq> None \<and> columns rawEvents ''y'' \<noteq> None
      \<and> columns rawEvents ''period_id'' \<noteq> None \<and> columns rawEvents ''event_type_id'' \<noteq> None
      \<and> fieldNames rawEvents = [''x'', ''y'', ''period_id'', ''event_type_id'']"
    by (simp add: rawEvents_def)
  have b: "columns exampleEvents ''opta_event_id'' \<noteq> None \<and> columns exampleEvents ''period_id'' \<noteq> None
      \<and> columns exampleEvents ''matched_time'' \<noteq> None
      \<and> fieldNames exampleEvents = [''opta_event_id'', ''period_id'', ''matched_time'']"
    by (simp add: exampleEvents_def)
  from a b none unchanged rawEvents_filtered kept show ?thesis by blast
qed

section \<open>Validating an imported results file\<close>





end
